theory Spec2Isabelle
  imports Complex_Main "HOL-Library.Multiset"
begin

section \<open>Values of the Go runtime that the program handles\<close>

subsection \<open>float64, as far as the program looks at it\<close>

text \<open>
  The program never does arithmetic on a price that a claim below depends on: it stores
  prices and compares them with zero. A float64 is therefore modelled by the value it
  denotes: a finite number (both zeros denote 0), one of the two infinities, or NaN.
  Every finite float64 is a rational, so the finite values of the model include those
  of the machine. The comparisons are those of IEEE 754, which Go's \<^verbatim>\<open><\<close> and
  \<^verbatim>\<open>>=\<close> implement: every ordered comparison with NaN is false.
\<close>

datatype float64 = Finite rat | PosInf | NegInf | NaN

fun f64_less :: "float64 \<Rightarrow> float64 \<Rightarrow> bool" where
  "f64_less NaN _ = False"
| "f64_less _ NaN = False"
| "f64_less (Finite a) (Finite b) = (a < b)"
| "f64_less (Finite _) PosInf = True"
| "f64_less (Finite _) NegInf = False"
| "f64_less PosInf _ = False"
| "f64_less NegInf NegInf = False"
| "f64_less NegInf _ = True"

fun f64_eq :: "float64 \<Rightarrow> float64 \<Rightarrow> bool" where
  "f64_eq NaN _ = False"
| "f64_eq _ NaN = False"
| "f64_eq a b = (a = b)"

definition f64_ge :: "float64 \<Rightarrow> float64 \<Rightarrow> bool" where
  "f64_ge a b = (f64_less b a \<or> f64_eq a b)"

definition f64_zero :: float64 where
  "f64_zero = Finite 0"

subsection \<open>Errors and panics\<close>

text \<open>
  An \<^verbatim>\<open>error\<close> value is either made by the program from a message
  (\<^verbatim>\<open>errors.New\<close>, or \<^verbatim>\<open>fmt.Errorf\<close> without \<^verbatim>\<open>%w\<close>), comes out of the HTTP
  client or out of the JSON decoder, or wraps another error behind a prefix
  (\<^verbatim>\<open>fmt.Errorf("...: %w", err)\<close>).
\<close>

datatype go_error =
    ErrorNew string
  | TransportError string
  | DecodeError string
  | WrapError string go_error

text \<open>
  A function that can panic returns \<open>Panicked v\<close> with the panic value (the program
  only panics with strings), or \<open>Returned x\<close>.
\<close>

datatype 'a exit = Returned 'a | Panicked string

subsection \<open>Formatting an integer with \<^verbatim>\<open>%d\<close>\<close>

definition digit_char :: "nat \<Rightarrow> char" where
  "digit_char d = char_of (48 + d)"

fun string_of_nat :: "nat \<Rightarrow> string" where
  "string_of_nat n =
     (if n < 10 then [digit_char n] else string_of_nat (n div 10) @ [digit_char (n mod 10)])"

declare string_of_nat.simps [simp del]

definition string_of_int :: "int \<Rightarrow> string" where
  "string_of_int k = (if k < 0 then CHR ''-'' # string_of_nat (nat (- k)) else string_of_nat (nat k))"

subsection \<open>Wall-clock time in UTC and its RFC 3339 text\<close>

text \<open>
  \<^verbatim>\<open>time.Now().UTC()\<close> is a reading of the clock, an input of the program. The model
  takes the reading as the civil date and time the library derives from it.
\<close>

record utc_time =
  year :: nat
  month :: nat
  day :: nat
  hour :: nat
  minute :: nat
  second :: nat

definition leap_year :: "nat \<Rightarrow> bool" where
  "leap_year y = (y mod 4 = 0 \<and> (y mod 100 \<noteq> 0 \<or> y mod 400 = 0))"

definition days_in_month :: "nat \<Rightarrow> nat \<Rightarrow> nat" where
  "days_in_month y m =
     (if m = 2 then (if leap_year y then 29 else 28)
      else if m = 4 \<or> m = 6 \<or> m = 9 \<or> m = 11 then 30 else 31)"

text \<open>What the library guarantees of a clock reading, for years of at most four digits.\<close>

definition valid_utc :: "utc_time \<Rightarrow> bool" where
  "valid_utc t =
     (year t < 10000 \<and> 1 \<le> month t \<and> month t \<le> 12 \<and>
      1 \<le> day t \<and> day t \<le> days_in_month (year t) (month t) \<and>
      hour t < 24 \<and> minute t < 60 \<and> second t < 60)"

text \<open>
  \<^verbatim>\<open>Format(time.RFC3339)\<close> of a UTC time, layout \<^verbatim>\<open>2006-01-02T15:04:05Z07:00\<close>: the
  year zero-padded to at least four digits, every other field to two, and \<^verbatim>\<open>Z\<close> for
  the zone.
\<close>

definition pad_left :: "nat \<Rightarrow> string \<Rightarrow> string" where
  "pad_left w s = replicate (w - length s) CHR ''0'' @ s"

definition two_digits :: "nat \<Rightarrow> string" where
  "two_digits n = pad_left 2 (string_of_nat n)"

definition format_rfc3339 :: "utc_time \<Rightarrow> string" where
  "format_rfc3339 t =
     pad_left 4 (string_of_nat (year t)) @ ''-'' @ two_digits (month t) @ ''-'' @
     two_digits (day t) @ ''T'' @ two_digits (hour t) @ '':'' @ two_digits (minute t) @
     '':'' @ two_digits (second t) @ ''Z''"

text \<open>
  A parser for the RFC 3339 date-times written with whole seconds and the zone \<^verbatim>\<open>Z\<close>
  (\<^verbatim>\<open>YYYY-MM-DDTHH:MM:SSZ\<close>), with the range checks of RFC 3339, section 5.6. What it
  accepts is an RFC 3339 date-time; it does not accept all of them (no fraction of a
  second, no numeric offset).
\<close>

definition digit_val :: "char \<Rightarrow> nat option" where
  "digit_val c = (let v = (of_char c :: nat) in if 48 \<le> v \<and> v \<le> 57 then Some (v - 48) else None)"

fun number_of_digits :: "nat \<Rightarrow> string \<Rightarrow> nat option" where
  "number_of_digits acc [] = Some acc"
| "number_of_digits acc (c # cs) =
     (case digit_val c of None \<Rightarrow> None | Some d \<Rightarrow> number_of_digits (10 * acc + d) cs)"

definition parse_rfc3339 :: "string \<Rightarrow> utc_time option" where
  "parse_rfc3339 s =
     (case s of
        [y1, y2, y3, y4, d1, m1, m2, d2, e1, e2, sep, h1, h2, c1, n1, n2, c2, s1, s2, z] \<Rightarrow>
          (if d1 = CHR ''-'' \<and> d2 = CHR ''-'' \<and> sep = CHR ''T'' \<and> c1 = CHR '':'' \<and>
              c2 = CHR '':'' \<and> z = CHR ''Z''
           then
             (case (number_of_digits 0 [y1, y2, y3, y4], number_of_digits 0 [m1, m2],
                    number_of_digits 0 [e1, e2], number_of_digits 0 [h1, h2],
                    number_of_digits 0 [n1, n2], number_of_digits 0 [s1, s2]) of
                (Some y, Some m, Some d, Some h, Some n, Some sc) \<Rightarrow>
                  (let t = \<lparr>year = y, month = m, day = d, hour = h, minute = n, second = sc\<rparr>
                   in if valid_utc t then Some t else None)
              | _ \<Rightarrow> None)
           else None)
      | _ \<Rightarrow> None)"

section \<open>The domain entities (package models)\<close>

record CryptoPrice =
  ID :: string
  Symbol :: string
  Name :: string
  CurrentPrice :: float64
  LastUpdated :: string

record CryptoBatch =
  Prices :: "CryptoPrice list"

text \<open>The zero value \<^verbatim>\<open>CryptoPrice{}\<close>.\<close>

definition CryptoPrice_zero :: CryptoPrice where
  "CryptoPrice_zero =
     \<lparr>ID = [], Symbol = [], Name = [], CurrentPrice = f64_zero, LastUpdated = []\<rparr>"

text \<open>\<^verbatim>\<open>Validate\<close>: the result is the error, \<open>None\<close> for \<^verbatim>\<open>nil\<close>.\<close>

definition Validate :: "CryptoPrice \<Rightarrow> go_error option" where
  "Validate c =
     (if ID c = [] then Some (ErrorNew ''crypto ID cannot be empty'')
      else if Symbol c = [] then Some (ErrorNew ''crypto symbol cannot be empty'')
      else if Name c = [] then Some (ErrorNew ''crypto name cannot be empty'')
      else if f64_less (CurrentPrice c) f64_zero
        then Some (ErrorNew ''crypto price cannot be negative'')
      else None)"

text \<open>
  \<^verbatim>\<open>UpdatePrice\<close> mutates its receiver: the model takes the entity and the clock
  reading, and returns the error together with the entity as the call leaves it.
\<close>

definition UpdatePrice :: "utc_time \<Rightarrow> CryptoPrice \<Rightarrow> float64 \<Rightarrow> go_error option \<times> CryptoPrice" where
  "UpdatePrice now c newPrice =
     (if f64_less newPrice f64_zero then (Some (ErrorNew ''price cannot be negative''), c)
      else (None, c\<lparr>CurrentPrice := newPrice, LastUpdated := format_rfc3339 now\<rparr>))"

definition AddCrypto :: "CryptoBatch \<Rightarrow> CryptoPrice \<Rightarrow> CryptoBatch" where
  "AddCrypto b crypto = b\<lparr>Prices := Prices b @ [crypto]\<rparr>"

text \<open>The loop of \<^verbatim>\<open>GetBySymbol\<close> over the slice, front to back.\<close>

fun GetBySymbol_loop :: "CryptoPrice list \<Rightarrow> string \<Rightarrow> CryptoPrice \<times> bool" where
  "GetBySymbol_loop [] symbol = (CryptoPrice_zero, False)"
| "GetBySymbol_loop (crypto # rest) symbol =
     (if Symbol crypto = symbol then (crypto, True) else GetBySymbol_loop rest symbol)"

definition GetBySymbol :: "CryptoBatch \<Rightarrow> string \<Rightarrow> CryptoPrice \<times> bool" where
  "GetBySymbol b symbol = GetBySymbol_loop (Prices b) symbol"

text \<open>\<^verbatim>\<open>GetPriceAt\<close>: Go's \<^verbatim>\<open>int\<close> index, a panic with its message, or the element.\<close>

definition GetPriceAt :: "CryptoBatch \<Rightarrow> int \<Rightarrow> CryptoPrice exit" where
  "GetPriceAt b index =
     (if index < 0 \<or> index \<ge> int (length (Prices b))
      then Panicked (''index out of bounds: '' @ string_of_int index)
      else Returned (Prices b ! nat index))"

section \<open>The API client (package api)\<close>

subsection \<open>What the client gets from outside the program\<close>

record http_response =
  StatusCode :: int
  Body :: string

text \<open>
  The market record of the top-N endpoint. Its fields are \<^verbatim>\<open>ID\<close>, \<^verbatim>\<open>Symbol\<close>,
  \<^verbatim>\<open>Name\<close> and \<^verbatim>\<open>Price\<close> in the source; they carry a prefix here, since the
  fields of two records of one theory share a name space.
\<close>

record MarketData =
  md_ID :: string
  md_Symbol :: string
  md_Name :: string
  md_Price :: float64

text \<open>
  The network, the JSON decoder of the standard library and the clock are inputs of the
  program, and every result below holds for all of them:
  \<^item> \<open>http_get k url\<close> is what \<^verbatim>\<open>c.httpClient.Get(url)\<close> returns to the \<open>k\<close>-th unit
    of work (the \<open>k\<close>-th identifier of the list; 0 for the single call of the top-N
    query): a transport error or a response;
  \<^item> \<open>decode_prices body\<close> is what \<^verbatim>\<open>Decode\<close> leaves in a
    \<^verbatim>\<open>map[string]map[string]float64\<close> or the error it returns, and \<open>decode_markets\<close>
    the same for \<^verbatim>\<open>[]MarketData\<close>;
  \<^item> \<open>now k\<close> is the reading of \<^verbatim>\<open>time.Now().UTC()\<close> made for the \<open>k\<close>-th record.
\<close>

record world =
  http_get :: "nat \<Rightarrow> string \<Rightarrow> go_error + http_response"
  decode_prices :: "string \<Rightarrow> go_error + (string \<rightharpoonup> (string \<rightharpoonup> float64))"
  decode_markets :: "string \<Rightarrow> go_error + MarketData list"
  now :: "nat \<Rightarrow> utc_time"

record CoinGeckoClient =
  baseURL :: string
  Timeout :: nat

definition NewCoinGeckoClient :: CoinGeckoClient where
  "NewCoinGeckoClient = \<lparr>baseURL = ''https://api.coingecko.com/api/v3'', Timeout = 10\<rparr>"

definition StatusOK :: int where
  "StatusOK = 200"

text \<open>
  \<^verbatim>\<open>data[cryptoID]["usd"]\<close>: indexing a Go map with a key it does not hold gives the zero
  value of the element type (a nil inner map, then 0).
\<close>

definition lookup_usd :: "(string \<rightharpoonup> (string \<rightharpoonup> float64)) \<Rightarrow> string \<Rightarrow> float64" where
  "lookup_usd data cryptoID =
     (case data cryptoID of
        None \<Rightarrow> f64_zero
      | Some inner \<Rightarrow> (case inner ''usd'' of None \<Rightarrow> f64_zero | Some v \<Rightarrow> v))"

text \<open>The two URLs, as \<^verbatim>\<open>fmt.Sprintf\<close> builds them.\<close>

definition price_url :: "CoinGeckoClient \<Rightarrow> string \<Rightarrow> string" where
  "price_url c cryptoID = baseURL c @ ''/simple/price?ids='' @ cryptoID @ ''&vs_currencies=usd''"

definition markets_url :: "CoinGeckoClient \<Rightarrow> int \<Rightarrow> string" where
  "markets_url c n =
     baseURL c @ ''/coins/markets?vs_currency=usd&order=market_cap_desc&per_page='' @
     string_of_int n @ ''&page=1''"

subsection \<open>One unit of work of FetchCryptoPrices\<close>

text \<open>What a unit of work sends, and on which of the two channels.\<close>

datatype msg = ToResults CryptoPrice | ToErrors go_error

text \<open>
  The body of the function literal, without its deferred \<^verbatim>\<open>recover\<close>. Every path that
  returns has sent one message just before; the path that panics has sent none. The
  deferred \<^verbatim>\<open>resp.Body.Close()\<close> sends nothing and is left out.
\<close>

definition fetch_body :: "world \<Rightarrow> CoinGeckoClient \<Rightarrow> nat \<Rightarrow> string \<Rightarrow> msg exit" where
  "fetch_body w c k cryptoID =
     (let url = price_url c cryptoID in
      case http_get w k url of
        Inl err \<Rightarrow> Returned (ToErrors err)
      | Inr resp \<Rightarrow>
          if StatusCode resp \<noteq> StatusOK
          then Panicked (''API returned status code: '' @ string_of_int (StatusCode resp))
          else
            (case decode_prices w (Body resp) of
               Inl err \<Rightarrow> Returned (ToErrors err)
             | Inr data \<Rightarrow>
                 Returned (ToResults
                   \<lparr>ID = cryptoID, Symbol = [], Name = [],
                    CurrentPrice = lookup_usd data cryptoID,
                    LastUpdated = format_rfc3339 (now w k)\<rparr>)))"

text \<open>
  The unit of work as the goroutine runs it: the deferred function recovers a panic of the
  body and sends an error made from the panic value. \<open>Panicked\<close> as the result of
  \<open>goroutine\<close> would be a panic that leaves the goroutine and ends the process.
\<close>

definition goroutine :: "world \<Rightarrow> CoinGeckoClient \<Rightarrow> nat \<Rightarrow> string \<Rightarrow> msg exit" where
  "goroutine w c k cryptoID =
     (case fetch_body w c k cryptoID of
        Returned m \<Rightarrow> Returned m
      | Panicked r \<Rightarrow> Returned (ToErrors (ErrorNew (''panic occurred: '' @ r))))"

subsection \<open>The goroutines, the two channels and the collecting loop\<close>

text \<open>
  The state of one call: the units of work still running, the contents of the two
  buffered channels (oldest first), the slice \<^verbatim>\<open>prices\<close> and the counter \<^verbatim>\<open>i\<close> of the
  collecting loop, what the call has returned if it has, and the panic value if a panic
  has left a goroutine.
\<close>

record fetch_state =
  running :: "nat list"
  results :: "CryptoPrice list"
  errors :: "go_error list"
  prices :: "CryptoPrice list"
  loop_i :: nat
  returned :: "(CryptoPrice list \<times> go_error option) option"
  crashed :: "string option"

definition init_state :: "nat \<Rightarrow> fetch_state" where
  "init_state n =
     \<lparr>running = [0..<n], results = [], errors = [], prices = [], loop_i = 0,
      returned = None, crashed = None\<rparr>"

text \<open>A send on a channel of capacity \<open>cap\<close>; \<open>None\<close> when the buffer is full and the
  sender would block.\<close>

fun send :: "nat \<Rightarrow> msg \<Rightarrow> fetch_state \<Rightarrow> fetch_state option" where
  "send cap (ToResults p) s =
     (if length (results s) < cap then Some (s\<lparr>results := results s @ [p]\<rparr>) else None)"
| "send cap (ToErrors e) s =
     (if length (errors s) < cap then Some (s\<lparr>errors := errors s @ [e]\<rparr>) else None)"

text \<open>
  What the scheduler and \<^verbatim>\<open>select\<close> can choose: unit \<open>k\<close> runs to its end, the
  \<^verbatim>\<open>select\<close> of the loop takes a value from \<^verbatim>\<open>results\<close> or from \<^verbatim>\<open>errors\<close>, or the
  loop is over and the call returns.
\<close>

datatype action = Finish nat | RecvResult | RecvError | Return

text \<open>
  One step; \<open>None\<close> when the action is not possible in the state. \<open>g k\<close> is the \<open>k\<close>-th
  unit of work, \<open>n\<close> is \<^verbatim>\<open>len(cryptoIDs)\<close>, the capacity of both channels and the bound
  of the loop. Units of work go on after the call has returned.
\<close>

definition step :: "(nat \<Rightarrow> msg exit) \<Rightarrow> nat \<Rightarrow> fetch_state \<Rightarrow> action \<Rightarrow> fetch_state option" where
  "step g n s a =
     (if crashed s \<noteq> None then None
      else case a of
        Finish k \<Rightarrow>
          (if k \<in> set (running s) then
             (case g k of
                Panicked r \<Rightarrow> Some (s\<lparr>crashed := Some r\<rparr>)
              | Returned m \<Rightarrow>
                  (case send n m s of
                     None \<Rightarrow> None
                   | Some s' \<Rightarrow> Some (s'\<lparr>running := remove1 k (running s)\<rparr>)))
           else None)
      | RecvResult \<Rightarrow>
          (if returned s = None \<and> loop_i s < n then
             (case results s of
                [] \<Rightarrow> None
              | price # rest \<Rightarrow>
                  Some (s\<lparr>results := rest, prices := prices s @ [price], loop_i := loop_i s + 1\<rparr>))
           else None)
      | RecvError \<Rightarrow>
          (if returned s = None \<and> loop_i s < n then
             (case errors s of
                [] \<Rightarrow> None
              | err # rest \<Rightarrow> Some (s\<lparr>errors := rest, returned := Some ([], Some err)\<rparr>))
           else None)
      | Return \<Rightarrow>
          (if returned s = None \<and> \<not> loop_i s < n
           then Some (s\<lparr>returned := Some (prices s, None)\<rparr>)
           else None))"

fun run :: "(nat \<Rightarrow> msg exit) \<Rightarrow> nat \<Rightarrow> fetch_state \<Rightarrow> action list \<Rightarrow> fetch_state option" where
  "run g n s [] = Some s"
| "run g n s (a # as) = (case step g n s a of None \<Rightarrow> None | Some s' \<Rightarrow> run g n s' as)"

text \<open>
  \<^verbatim>\<open>FetchCryptoPrices\<close> under a schedule: the state the schedule leads to, and what the
  call has returned there (a slice, \<open>[]\<close> for \<^verbatim>\<open>nil\<close>, and an error, \<open>None\<close> for
  \<^verbatim>\<open>nil\<close>). The result is \<open>None\<close> when the schedule is not an execution of the call or
  the call has not returned at its end.
\<close>

definition units :: "world \<Rightarrow> CoinGeckoClient \<Rightarrow> string list \<Rightarrow> nat \<Rightarrow> msg exit" where
  "units w c cryptoIDs k = goroutine w c k (cryptoIDs ! k)"

definition FetchCryptoPrices_run ::
  "world \<Rightarrow> CoinGeckoClient \<Rightarrow> string list \<Rightarrow> action list \<Rightarrow> fetch_state option" where
  "FetchCryptoPrices_run w c cryptoIDs sched =
     run (units w c cryptoIDs) (length cryptoIDs) (init_state (length cryptoIDs)) sched"

definition FetchCryptoPrices ::
  "world \<Rightarrow> CoinGeckoClient \<Rightarrow> string list \<Rightarrow> action list \<Rightarrow>
   (CryptoPrice list \<times> go_error option) option" where
  "FetchCryptoPrices w c cryptoIDs sched =
     (case FetchCryptoPrices_run w c cryptoIDs sched of None \<Rightarrow> None | Some s \<Rightarrow> returned s)"

subsection \<open>GetTopNCryptos\<close>

text \<open>The loop that fills \<^verbatim>\<open>cryptoPrices\<close>; \<open>i\<close> is the index of the record.\<close>

fun to_prices :: "world \<Rightarrow> nat \<Rightarrow> MarketData list \<Rightarrow> CryptoPrice list" where
  "to_prices w i [] = []"
| "to_prices w i (data # rest) =
     \<lparr>ID = md_ID data, Symbol = md_Symbol data, Name = md_Name data,
      CurrentPrice = md_Price data, LastUpdated = format_rfc3339 (now w i)\<rparr>
     # to_prices w (Suc i) rest"

definition GetTopNCryptos ::
  "world \<Rightarrow> CoinGeckoClient \<Rightarrow> int \<Rightarrow> CryptoPrice list \<times> go_error option" where
  "GetTopNCryptos w c n =
     (let url = markets_url c n in
      case http_get w 0 url of
        Inl err \<Rightarrow> ([], Some (WrapError ''failed to fetch top cryptos: '' err))
      | Inr resp \<Rightarrow>
          if StatusCode resp \<noteq> StatusOK
          then ([], Some (ErrorNew (''API returned status code: '' @ string_of_int (StatusCode resp))))
          else
            (case decode_markets w (Body resp) of
               Inl err \<Rightarrow> ([], Some (WrapError ''failed to decode response: '' err))
             | Inr marketData \<Rightarrow> (to_prices w 0 marketData, None)))"

subsection \<open>The servers of the tests\<close>

text \<open>
  The test servers of \<^verbatim>\<open>coingecko_test.go\<close>, each with a decoder that knows the one body
  in use, and a server of the top-N endpoint. They give the concrete executions below.
\<close>

definition success_body :: string where
  \<open>success_body = ''{"bitcoin":{"usd":50000}}''\<close>

definition clock0 :: utc_time where
  "clock0 = \<lparr>year = 2026, month = 10, day = 31, hour = 13, minute = 5, second = 9\<rparr>"

definition test_decode_prices :: "string \<Rightarrow> go_error + (string \<rightharpoonup> (string \<rightharpoonup> float64))" where
  "test_decode_prices body =
     (if body = success_body then Inr [''bitcoin'' \<mapsto> [''usd'' \<mapsto> Finite 50000]]
      else if body = ''{}'' then Inr Map.empty
      else Inl (DecodeError ''invalid character''))"

definition markets_body :: string where
  \<open>markets_body = ''[{"id":"bitcoin","symbol":"btc","name":"Bitcoin","current_price":50000}]''\<close>

definition test_decode_markets :: "string \<Rightarrow> go_error + MarketData list" where
  "test_decode_markets body =
     (if body = markets_body
      then Inr [\<lparr>md_ID = ''bitcoin'', md_Symbol = ''btc'', md_Name = ''Bitcoin'',
                 md_Price = Finite 50000\<rparr>]
      else Inl (DecodeError ''invalid character''))"

definition test_server :: "int \<Rightarrow> string \<Rightarrow> world" where
  "test_server status body =
     \<lparr>http_get = (\<lambda>k url. Inr \<lparr>StatusCode = status, Body = body\<rparr>),
      decode_prices = test_decode_prices, decode_markets = test_decode_markets,
      now = (\<lambda>k. clock0)\<rparr>"

text \<open>A server that answers 200 to the first unit of work and \<open>status\<close> to the others.\<close>

definition mixed_server :: "int \<Rightarrow> world" where
  "mixed_server status =
     \<lparr>http_get = (\<lambda>k url. Inr \<lparr>StatusCode = (if k = 0 then 200 else status), Body = success_body\<rparr>),
      decode_prices = test_decode_prices, decode_markets = test_decode_markets,
      now = (\<lambda>k. clock0)\<rparr>"

text \<open>A server that cannot be reached.\<close>

definition down_server :: world where
  "down_server =
     \<lparr>http_get = (\<lambda>k url. Inl (TransportError ''connection refused'')),
      decode_prices = test_decode_prices, decode_markets = test_decode_markets,
      now = (\<lambda>k. clock0)\<rparr>"

definition test_client :: CoinGeckoClient where
  "test_client = \<lparr>baseURL = ''http://127.0.0.1:8080'', Timeout = 10\<rparr>"

subsection \<open>JSON texts, and how the decoder of the standard library reads a stream\<close>

text \<open>
  The grammar of RFC 8259. \<open>json_value fuel s\<close> skips white space, reads one JSON value
  from the front of \<open>s\<close> and gives what follows it; it gives \<open>None\<close> when \<open>s\<close> does not
  begin with a JSON value. The fuel bounds the depth of the recursion: of any two nested
  calls one reads a character, and \<open>2 * length s + 2\<close> is taken for a text \<open>s\<close>.
\<close>

definition skip_ws :: "string \<Rightarrow> string" where
  "skip_ws s = dropWhile (\<lambda>c. c = CHR '' '' \<or> c = CHR 0x09 \<or> c = CHR 0x0A \<or> c = CHR 0x0D) s"

definition is_digit :: "char \<Rightarrow> bool" where
  "is_digit c = (48 \<le> (of_char c :: nat) \<and> (of_char c :: nat) \<le> 57)"

definition is_hex :: "char \<Rightarrow> bool" where
  "is_hex c = (is_digit c \<or> c \<in> set ''abcdefABCDEF'')"

text \<open>The rest of a string, from behind its opening quotation mark.\<close>

fun scan_string :: "string \<Rightarrow> string option" where
  "scan_string [] = None"
| "scan_string (c # cs) =
     (if c = CHR 0x22 then Some cs
      else if c = CHR 0x5C then
        (case cs of
           [] \<Rightarrow> None
         | e # rest \<Rightarrow>
             if e = CHR ''u'' then
               (case rest of
                  h1 # h2 # h3 # h4 # rest' \<Rightarrow>
                    if is_hex h1 \<and> is_hex h2 \<and> is_hex h3 \<and> is_hex h4 then scan_string rest'
                    else None
                | _ \<Rightarrow> None)
             else if e = CHR 0x22 \<or> e = CHR 0x5C \<or> e \<in> set ''/bfnrt'' then scan_string rest
             else None)
      else if (of_char c :: nat) < 32 then None
      else scan_string cs)"

text \<open>At least one digit, then the rest.\<close>

definition scan_digits :: "string \<Rightarrow> string option" where
  "scan_digits s = (case s of [] \<Rightarrow> None | c # cs \<Rightarrow> if is_digit c then Some (dropWhile is_digit cs) else None)"

definition scan_number :: "string \<Rightarrow> string option" where
  "scan_number s =
     (let s1 = (case s of c # cs \<Rightarrow> if c = CHR ''-'' then cs else s | [] \<Rightarrow> s);
          int_part = (case s1 of
                        c # cs \<Rightarrow> if c = CHR ''0'' then Some cs else scan_digits s1
                      | [] \<Rightarrow> None)
      in case int_part of
           None \<Rightarrow> None
         | Some s2 \<Rightarrow>
             (let frac = (case s2 of
                            c # cs \<Rightarrow> if c = CHR ''.'' then scan_digits cs else Some s2
                          | [] \<Rightarrow> Some s2)
              in case frac of
                   None \<Rightarrow> None
                 | Some s3 \<Rightarrow>
                     (case s3 of
                        c # cs \<Rightarrow>
                          if c = CHR ''e'' \<or> c = CHR ''E'' then
                            (case cs of
                               d # ds \<Rightarrow>
                                 if d = CHR ''+'' \<or> d = CHR ''-'' then scan_digits ds
                                 else scan_digits cs
                             | [] \<Rightarrow> None)
                          else Some s3
                      | [] \<Rightarrow> Some s3)))"

definition scan_literal :: "string \<Rightarrow> string \<Rightarrow> string option" where
  "scan_literal lit s = (if take (length lit) s = lit then Some (drop (length lit) s) else None)"

fun json_value :: "nat \<Rightarrow> string \<Rightarrow> string option"
  and json_elements :: "nat \<Rightarrow> string \<Rightarrow> string option"
  and json_members :: "nat \<Rightarrow> string \<Rightarrow> string option" where
  "json_value 0 s = None"
| "json_value (Suc n) s =
     (case skip_ws s of
        [] \<Rightarrow> None
      | c # cs \<Rightarrow>
          if c = CHR ''{'' then
            (case skip_ws cs of
               [] \<Rightarrow> None
             | d # ds \<Rightarrow> if d = CHR ''}'' then Some ds else json_members n (d # ds))
          else if c = CHR ''['' then
            (case skip_ws cs of
               [] \<Rightarrow> None
             | d # ds \<Rightarrow> if d = CHR '']'' then Some ds else json_elements n (d # ds))
          else if c = CHR 0x22 then scan_string cs
          else if c = CHR ''t'' then scan_literal ''true'' (c # cs)
          else if c = CHR ''f'' then scan_literal ''false'' (c # cs)
          else if c = CHR ''n'' then scan_literal ''null'' (c # cs)
          else scan_number (c # cs))"
| "json_elements 0 s = None"
| "json_elements (Suc n) s =
     (case json_value n s of
        None \<Rightarrow> None
      | Some r \<Rightarrow>
          (case skip_ws r of
             [] \<Rightarrow> None
           | c # cs \<Rightarrow>
               if c = CHR '','' then json_elements n cs
               else if c = CHR '']'' then Some cs
               else None))"
| "json_members 0 s = None"
| "json_members (Suc n) s =
     (case skip_ws s of
        [] \<Rightarrow> None
      | c # cs \<Rightarrow>
          if c = CHR 0x22 then
            (case scan_string cs of
               None \<Rightarrow> None
             | Some r \<Rightarrow>
                 (case skip_ws r of
                    [] \<Rightarrow> None
                  | d # ds \<Rightarrow>
                      if d = CHR '':'' then
                        (case json_value n ds of
                           None \<Rightarrow> None
                         | Some r2 \<Rightarrow>
                             (case skip_ws r2 of
                                [] \<Rightarrow> None
                              | e # es \<Rightarrow>
                                  if e = CHR '','' then json_members n es
                                  else if e = CHR ''}'' then Some es
                                  else None))
                      else None))
          else None)"




definition two_status_server :: "int \<Rightarrow> int \<Rightarrow> world" where
  "two_status_server first other =
     \<lparr>http_get = (\<lambda>k url. Inr \<lparr>StatusCode = (if k = 0 then first else other), Body = success_body\<rparr>),
      decode_prices = test_decode_prices, decode_markets = test_decode_markets,
      now = (\<lambda>k. clock0)\<rparr>"

subsection \<open>Notions for reasoning about the executions\<close>

text \<open>The error that the call has taken from the channel and returned, as a message.\<close>

definition taken :: "fetch_state \<Rightarrow> msg multiset" where
  "taken s = (case returned s of Some (_, Some e) \<Rightarrow> {#ToErrors e#} | _ \<Rightarrow> {#})"

text \<open>
  What holds in every state of an execution, when unit \<open>k\<close> sends \<open>m k\<close>: no panic has
  left a goroutine; the messages of the running units, those in the two channels, the
  collected prices and the returned error are together the messages of all units, each
  once; the counter is the number of collected prices; and what the call has returned is
  either all \<open>n\<close> collected prices or no price and an error.
\<close>

definition fetch_inv :: "(nat \<Rightarrow> msg) \<Rightarrow> nat \<Rightarrow> fetch_state \<Rightarrow> bool" where
  "fetch_inv m n s =
     (crashed s = None \<and> set (running s) \<subseteq> {0..<n} \<and>
      image_mset m (mset (running s)) + image_mset ToResults (mset (results s)) +
        image_mset ToErrors (mset (errors s)) + image_mset ToResults (mset (prices s)) + taken s
        = image_mset m (mset [0..<n]) \<and>
      loop_i s = length (prices s) \<and>
      (case returned s of
         None \<Rightarrow> True
       | Some (ps, None) \<Rightarrow> ps = prices s \<and> length ps = n
       | Some (ps, Some e) \<Rightarrow> ps = []))"

text \<open>The number of steps an execution has left at most.\<close>

definition steps_left :: "nat \<Rightarrow> fetch_state \<Rightarrow> nat" where
  "steps_left n s = length (running s) + (n - loop_i s) + (if returned s = None then 1 else 0)"

subsection \<open>Notions for stating the claims\<close>

text \<open>
  The answer to the \<open>k\<close>-th identifier has status 200 and a body that decodes, and the
  decoded map holds no price for the identifier: the identifier is not a key, or its
  inner map has no key \<^verbatim>\<open>usd\<close>.
\<close>

definition price_missing :: "world \<Rightarrow> CoinGeckoClient \<Rightarrow> string list \<Rightarrow> nat \<Rightarrow> bool" where
  "price_missing w c cryptoIDs k =
     (case http_get w k (price_url c (cryptoIDs ! k)) of
        Inl err \<Rightarrow> False
      | Inr resp \<Rightarrow>
          StatusCode resp = 200 \<and>
          (case decode_prices w (Body resp) of
             Inl err \<Rightarrow> False
           | Inr data \<Rightarrow>
               (case data (cryptoIDs ! k) of
                  None \<Rightarrow> True
                | Some inner \<Rightarrow> inner ''usd'' = None)))"

section \<open>Decimal digits and the RFC 3339 text of a clock reading\<close>

lemma digit_char_0: "digit_char 0 = CHR ''0''"
  by code_simp

lemma digit_val_digit_char: "d < 10 \<Longrightarrow> digit_val (digit_char d) = Some d"
  by (simp add: digit_val_def digit_char_def Let_def)

lemma string_of_nat_lt10: "n < 10 \<Longrightarrow> string_of_nat n = [digit_char n]"
  by (simp add: string_of_nat.simps)

lemma string_of_nat_step:
  "10 \<le> n \<Longrightarrow> string_of_nat n = string_of_nat (n div 10) @ [digit_char (n mod 10)]"
  by (subst string_of_nat.simps) simp

lemma string_of_nat_2:
  assumes "10 \<le> n" "n < 100"
  shows "string_of_nat n = [digit_char (n div 10), digit_char (n mod 10)]"
proof -
  from assms have "n div 10 < 10" by simp
  then show ?thesis using assms(1) by (simp add: string_of_nat_step string_of_nat_lt10)
qed

lemma string_of_nat_3:
  assumes "100 \<le> n" "n < 1000"
  shows "string_of_nat n =
    [digit_char (n div 100), digit_char (n div 10 mod 10), digit_char (n mod 10)]"
proof -
  from assms have a: "10 \<le> n div 10" "n div 10 < 100" "10 \<le> n" by simp_all
  have b: "n div 10 div 10 = n div 100" by (simp add: div_mult2_eq[symmetric])
  show ?thesis using string_of_nat_step[OF a(3)] string_of_nat_2[OF a(1,2)] b by simp
qed

lemma string_of_nat_4:
  assumes "1000 \<le> n" "n < 10000"
  shows "string_of_nat n =
    [digit_char (n div 1000), digit_char (n div 100 mod 10), digit_char (n div 10 mod 10),
     digit_char (n mod 10)]"
proof -
  from assms have a: "100 \<le> n div 10" "n div 10 < 1000" "10 \<le> n" by simp_all
  have b: "n div 10 div 100 = n div 1000" "n div 10 div 10 = n div 100"
    by (simp_all add: div_mult2_eq[symmetric])
  show ?thesis using string_of_nat_step[OF a(3)] string_of_nat_3[OF a(1,2)] b by simp
qed

lemma pad_left_4_1: "pad_left 4 [a] = [CHR ''0'', CHR ''0'', CHR ''0'', a]"
  by (simp add: pad_left_def numeral_3_eq_3)

lemma pad_left_4_2: "pad_left 4 [a, b] = [CHR ''0'', CHR ''0'', a, b]"
  by (simp add: pad_left_def numeral_2_eq_2)

lemma pad_left_4_3: "pad_left 4 [a, b, c] = [CHR ''0'', a, b, c]"
  by (simp add: pad_left_def)

lemma pad_left_4_4: "pad_left 4 [a, b, c, d] = [a, b, c, d]"
  by (simp add: pad_left_def)

lemma pad_left_2_1: "pad_left 2 [a] = [CHR ''0'', a]"
  by (simp add: pad_left_def)

lemma pad_left_2_2: "pad_left 2 [a, b] = [a, b]"
  by (simp add: pad_left_def)

lemma two_digits_eq:
  "n < 100 \<Longrightarrow> two_digits n = [digit_char (n div 10), digit_char (n mod 10)]"
  by (cases "n < 10")
    (simp_all add: two_digits_def pad_left_2_1 pad_left_2_2 string_of_nat_lt10 string_of_nat_2
      digit_char_0)

lemma four_digits_eq:
  assumes "n < 10000"
  shows "pad_left 4 (string_of_nat n) =
    [digit_char (n div 1000), digit_char (n div 100 mod 10), digit_char (n div 10 mod 10),
     digit_char (n mod 10)]"
proof -
  consider "n < 10" | "10 \<le> n" "n < 100" | "100 \<le> n" "n < 1000" | "1000 \<le> n"
    by linarith
  then show ?thesis
  proof cases
    case 1
    then show ?thesis by (simp add: pad_left_4_1 string_of_nat_lt10 digit_char_0)
  next
    case 2
    then show ?thesis by (simp add: pad_left_4_2 string_of_nat_2 digit_char_0)
  next
    case 3
    then show ?thesis by (simp add: pad_left_4_3 string_of_nat_3 digit_char_0)
  next
    case 4
    with assms show ?thesis by (simp add: pad_left_4_4 string_of_nat_4)
  qed
qed

lemma decimal_4:
  "10 * (10 * (10 * (n div 1000) + n div 100 mod 10) + n div 10 mod 10) + n mod 10 = (n::nat)"
proof -
  have a: "n div 100 div 10 = n div 1000" "n div 10 div 10 = n div 100"
    by (simp_all add: div_mult2_eq[symmetric])
  have "10 * (n div 1000) + n div 100 mod 10 = n div 100"
    using div_mult_mod_eq[of "n div 100" 10] a(1) by simp
  moreover have "10 * (n div 100) + n div 10 mod 10 = n div 10"
    using div_mult_mod_eq[of "n div 10" 10] a(2) by simp
  moreover have "10 * (n div 10) + n mod 10 = n"
    using div_mult_mod_eq[of n 10] by simp
  ultimately show ?thesis by simp
qed

lemma decimal_4_flat:
  "1000 * (n div 1000) + 100 * (n div 100 mod 10) + 10 * (n div 10 mod 10) + n mod 10 = (n::nat)"
  using decimal_4[of n] by simp

lemma number_two_digits: "n < 100 \<Longrightarrow> number_of_digits 0 (two_digits n) = Some n"
  by (simp add: two_digits_eq digit_val_digit_char)

lemma number_four_digits:
  assumes "n < 10000"
  shows "number_of_digits 0 (pad_left 4 (string_of_nat n)) = Some n"
proof -
  have "n div 1000 < 10" using assms by simp
  then show ?thesis
    by (simp add: four_digits_eq[OF assms] digit_val_digit_char decimal_4_flat)
qed

lemma days_in_month_le: "days_in_month y m \<le> 31"
  by (simp add: days_in_month_def)

text \<open>
  The text that \<^verbatim>\<open>Format(time.RFC3339)\<close> writes for a clock reading parses as RFC 3339,
  and gives the reading back.
\<close>

lemma parse_format_rfc3339:
  assumes v: "valid_utc t"
  shows "parse_rfc3339 (format_rfc3339 t) = Some t"
proof -
  from v have y: "year t < 10000" and m: "month t < 100" and h: "hour t < 100"
    and n: "minute t < 100" and s: "second t < 100"
    by (simp_all add: valid_utc_def)
  from v have "day t \<le> days_in_month (year t) (month t)" by (simp add: valid_utc_def)
  with days_in_month_le[of "year t" "month t"] have d: "day t < 100" by linarith
  have fs: "format_rfc3339 t =
     [digit_char (year t div 1000), digit_char (year t div 100 mod 10),
      digit_char (year t div 10 mod 10), digit_char (year t mod 10), CHR ''-'',
      digit_char (month t div 10), digit_char (month t mod 10), CHR ''-'',
      digit_char (day t div 10), digit_char (day t mod 10), CHR ''T'',
      digit_char (hour t div 10), digit_char (hour t mod 10), CHR '':'',
      digit_char (minute t div 10), digit_char (minute t mod 10), CHR '':'',
      digit_char (second t div 10), digit_char (second t mod 10), CHR ''Z'']"
    by (simp add: format_rfc3339_def four_digits_eq[OF y] two_digits_eq m d h n s)
  have ny: "number_of_digits 0 [digit_char (year t div 1000), digit_char (year t div 100 mod 10),
      digit_char (year t div 10 mod 10), digit_char (year t mod 10)] = Some (year t)"
    using number_four_digits[OF y] by (simp only: four_digits_eq[OF y])
  have n2: "\<And>k. k < 100 \<Longrightarrow>
      number_of_digits 0 [digit_char (k div 10), digit_char (k mod 10)] = Some k"
    using number_two_digits by (simp only: two_digits_eq)
  have r: "valid_utc \<lparr>year = year t, month = month t, day = day t, hour = hour t,
      minute = minute t, second = second t\<rparr>"
    using v by (simp add: valid_utc_def)
  show ?thesis
    unfolding fs parse_rfc3339_def
    by (simp add: ny n2 m d h n s r Let_def del: number_of_digits.simps)
qed

section \<open>The domain entities\<close>

lemma f64_not_less_zero: "(\<not> f64_less p f64_zero) = (f64_ge p f64_zero \<or> p = NaN)"
  by (cases p) (auto simp: f64_ge_def f64_zero_def)

subsection \<open>Validate\<close>

text \<open>
  Claim C2, as the specification states it, says that \<^verbatim>\<open>Validate\<close> returns no error
  if and only if ID, Symbol and Name are non-empty and CurrentPrice is non-negative.
  The test of the code is \<^verbatim>\<open>c.CurrentPrice < 0\<close>, which is false for NaN: an entity
  with three non-empty strings and the price NaN passes \<^verbatim>\<open>Validate\<close>, although NaN
  is not greater than or equal to zero.
\<close>

theorem Validate_nan_counterexample:
  "\<not> (Validate \<lparr>ID = ''bitcoin'', Symbol = ''btc'', Name = ''Bitcoin'', CurrentPrice = NaN,
                 LastUpdated = ''2026-10-31T13:05:09Z''\<rparr> = None
      \<longleftrightarrow> (''bitcoin'' \<noteq> [] \<and> ''btc'' \<noteq> [] \<and> ''Bitcoin'' \<noteq> [] \<and> f64_ge NaN f64_zero))"
  by (simp add: Validate_def f64_ge_def f64_zero_def)

text \<open>
  Claim C2, amended: for every CryptoPrice entity, \<^verbatim>\<open>Validate\<close> returns no error if and
  only if ID, Symbol and Name are all non-empty and CurrentPrice is not less than zero,
  that is, it is greater than or equal to zero or it is NaN; the LastUpdated timestamp is
  not checked (changing it never changes the result), and any single violated field
  constraint (an empty ID, Symbol or Name, or a price below zero) yields a non-nil error.
\<close>

theorem Validate_characterisation:
  "(Validate c = None \<longleftrightarrow>
      ID c \<noteq> [] \<and> Symbol c \<noteq> [] \<and> Name c \<noteq> [] \<and>
      (f64_ge (CurrentPrice c) f64_zero \<or> CurrentPrice c = NaN))
   \<and> Validate (c\<lparr>LastUpdated := t\<rparr>) = Validate c"
  by (simp add: Validate_def f64_not_less_zero[symmetric])

subsection \<open>UpdatePrice\<close>

text \<open>
  Claim C3: for every CryptoPrice entity and every price \<open>p\<close>, \<^verbatim>\<open>UpdatePrice(p)\<close> with
  \<open>p < 0\<close> returns an error and leaves the entity as it was (so CurrentPrice and
  LastUpdated are unchanged); with \<open>p \<ge> 0\<close> it returns no error, sets CurrentPrice to
  \<open>p\<close> and sets LastUpdated to the RFC 3339 text of the clock reading, which parses as
  RFC 3339 and gives the reading back (for a reading that is a date and time of a year of
  at most four digits, as the library's clock gives).
\<close>

theorem UpdatePrice_behaviour:
  "(f64_less p f64_zero \<longrightarrow>
      (\<exists>e. fst (UpdatePrice t c p) = Some e) \<and> snd (UpdatePrice t c p) = c \<and>
      CurrentPrice (snd (UpdatePrice t c p)) = CurrentPrice c \<and>
      LastUpdated (snd (UpdatePrice t c p)) = LastUpdated c)
   \<and> (f64_ge p f64_zero \<longrightarrow>
      fst (UpdatePrice t c p) = None \<and>
      CurrentPrice (snd (UpdatePrice t c p)) = p \<and>
      LastUpdated (snd (UpdatePrice t c p)) = format_rfc3339 t \<and>
      ID (snd (UpdatePrice t c p)) = ID c \<and> Symbol (snd (UpdatePrice t c p)) = Symbol c \<and>
      Name (snd (UpdatePrice t c p)) = Name c \<and>
      (valid_utc t \<longrightarrow> parse_rfc3339 (LastUpdated (snd (UpdatePrice t c p))) = Some t))"
proof -
  have neg: "f64_less p f64_zero \<Longrightarrow> UpdatePrice t c p = (Some (ErrorNew ''price cannot be negative''), c)"
    by (simp add: UpdatePrice_def)
  have pos: "f64_ge p f64_zero \<Longrightarrow>
      UpdatePrice t c p = (None, c\<lparr>CurrentPrice := p, LastUpdated := format_rfc3339 t\<rparr>)"
    by (simp add: UpdatePrice_def f64_not_less_zero)
  show ?thesis
  proof (intro conjI impI)
    assume "f64_ge p f64_zero" and "valid_utc t"
    then show "parse_rfc3339 (LastUpdated (snd (UpdatePrice t c p))) = Some t"
      by (simp add: pos parse_format_rfc3339)
  qed (simp_all add: neg pos)
qed

theorem UpdatePrice_behaviour_witness:
  "fst (UpdatePrice \<lparr>year = 2026, month = 10, day = 31, hour = 13, minute = 5, second = 9\<rparr>
          \<lparr>ID = ''bitcoin'', Symbol = ''btc'', Name = ''Bitcoin'', CurrentPrice = Finite 50000,
           LastUpdated = ''2025-01-01T00:00:00Z''\<rparr> (Finite (- 1000))) \<noteq> None
   \<and> snd (UpdatePrice \<lparr>year = 2026, month = 10, day = 31, hour = 13, minute = 5, second = 9\<rparr>
          \<lparr>ID = ''bitcoin'', Symbol = ''btc'', Name = ''Bitcoin'', CurrentPrice = Finite 50000,
           LastUpdated = ''2025-01-01T00:00:00Z''\<rparr> (Finite (- 1000)))
     = \<lparr>ID = ''bitcoin'', Symbol = ''btc'', Name = ''Bitcoin'', CurrentPrice = Finite 50000,
           LastUpdated = ''2025-01-01T00:00:00Z''\<rparr>
   \<and> fst (UpdatePrice \<lparr>year = 2026, month = 10, day = 31, hour = 13, minute = 5, second = 9\<rparr>
          \<lparr>ID = ''bitcoin'', Symbol = ''btc'', Name = ''Bitcoin'', CurrentPrice = Finite 50000,
           LastUpdated = ''2025-01-01T00:00:00Z''\<rparr> (Finite 51000)) = None
   \<and> CurrentPrice (snd (UpdatePrice
          \<lparr>year = 2026, month = 10, day = 31, hour = 13, minute = 5, second = 9\<rparr>
          \<lparr>ID = ''bitcoin'', Symbol = ''btc'', Name = ''Bitcoin'', CurrentPrice = Finite 50000,
           LastUpdated = ''2025-01-01T00:00:00Z''\<rparr> (Finite 51000))) = Finite 51000
   \<and> LastUpdated (snd (UpdatePrice
          \<lparr>year = 2026, month = 10, day = 31, hour = 13, minute = 5, second = 9\<rparr>
          \<lparr>ID = ''bitcoin'', Symbol = ''btc'', Name = ''Bitcoin'', CurrentPrice = Finite 50000,
           LastUpdated = ''2025-01-01T00:00:00Z''\<rparr> (Finite 51000))) = ''2026-10-31T13:05:09Z''
   \<and> parse_rfc3339 ''2026-10-31T13:05:09Z''
     = Some \<lparr>year = 2026, month = 10, day = 31, hour = 13, minute = 5, second = 9\<rparr>"
proof -
  let ?t = "\<lparr>year = 2026, month = 10, day = 31, hour = 13, minute = 5, second = 9\<rparr>"
  let ?c = "\<lparr>ID = ''bitcoin'', Symbol = ''btc'', Name = ''Bitcoin'', CurrentPrice = Finite 50000,
           LastUpdated = ''2025-01-01T00:00:00Z''\<rparr>"
  have neg: "f64_less (Finite (- 1000)) f64_zero" by (simp add: f64_zero_def)
  have pos: "f64_ge (Finite 51000) f64_zero" by (simp add: f64_ge_def f64_zero_def)
  have v: "valid_utc ?t" by (simp add: valid_utc_def days_in_month_def)
  have f: "format_rfc3339 ?t = ''2026-10-31T13:05:09Z''" by code_simp
  have a: "(\<exists>e. fst (UpdatePrice ?t ?c (Finite (- 1000))) = Some e) \<and>
      snd (UpdatePrice ?t ?c (Finite (- 1000))) = ?c"
    using UpdatePrice_behaviour[of "Finite (- 1000)" ?t ?c] neg by blast
  have b: "fst (UpdatePrice ?t ?c (Finite 51000)) = None \<and>
      CurrentPrice (snd (UpdatePrice ?t ?c (Finite 51000))) = Finite 51000 \<and>
      LastUpdated (snd (UpdatePrice ?t ?c (Finite 51000))) = format_rfc3339 ?t \<and>
      parse_rfc3339 (LastUpdated (snd (UpdatePrice ?t ?c (Finite 51000)))) = Some ?t"
    using UpdatePrice_behaviour[of "Finite 51000" ?t ?c] pos v by blast
  from b have p: "parse_rfc3339 (format_rfc3339 ?t) = Some ?t" by metis
  from a have a1: "fst (UpdatePrice ?t ?c (Finite (- 1000))) \<noteq> None" by auto
  from a1 a b p show ?thesis unfolding f by blast
qed

subsection \<open>GetPriceAt\<close>

text \<open>
  Claim C6: for every batch and every index \<open>i\<close>, \<^verbatim>\<open>GetPriceAt(i)\<close> panics if and only if
  \<open>i < 0\<close> or \<open>i\<close> is at least the length of the batch, and otherwise returns the element
  at position \<open>i\<close>; index 0 on a batch of one element returns that element.
\<close>

theorem GetPriceAt_panics_iff:
  "((\<exists>v. GetPriceAt b i = Panicked v) \<longleftrightarrow> (i < 0 \<or> i \<ge> int (length (Prices b))))
   \<and> (0 \<le> i \<and> i < int (length (Prices b)) \<longrightarrow> GetPriceAt b i = Returned (Prices b ! nat i))
   \<and> GetPriceAt \<lparr>Prices = [x]\<rparr> 0 = Returned x"
  by (simp add: GetPriceAt_def)

theorem GetPriceAt_panics_iff_witness:
  "GetPriceAt \<lparr>Prices = [\<lparr>ID = ''bitcoin'', Symbol = ''btc'', Name = ''Bitcoin'',
       CurrentPrice = Finite 50000, LastUpdated = []\<rparr>,
       \<lparr>ID = ''ethereum'', Symbol = ''eth'', Name = ''Ethereum'',
       CurrentPrice = Finite 3000, LastUpdated = []\<rparr>]\<rparr> 1
     = Returned \<lparr>ID = ''ethereum'', Symbol = ''eth'', Name = ''Ethereum'',
       CurrentPrice = Finite 3000, LastUpdated = []\<rparr>
   \<and> (\<exists>v. GetPriceAt \<lparr>Prices = [\<lparr>ID = ''bitcoin'', Symbol = ''btc'', Name = ''Bitcoin'',
       CurrentPrice = Finite 50000, LastUpdated = []\<rparr>]\<rparr> (- 1) = Panicked v)
   \<and> (\<exists>v. GetPriceAt \<lparr>Prices = [\<lparr>ID = ''bitcoin'', Symbol = ''btc'', Name = ''Bitcoin'',
       CurrentPrice = Finite 50000, LastUpdated = []\<rparr>]\<rparr> 1 = Panicked v)"
proof -
  let ?btc = "\<lparr>ID = ''bitcoin'', Symbol = ''btc'', Name = ''Bitcoin'',
       CurrentPrice = Finite 50000, LastUpdated = []\<rparr>"
  let ?eth = "\<lparr>ID = ''ethereum'', Symbol = ''eth'', Name = ''Ethereum'',
       CurrentPrice = Finite 3000, LastUpdated = []\<rparr>"
  have "GetPriceAt \<lparr>Prices = [?btc, ?eth]\<rparr> 1 = Returned ?eth"
    using GetPriceAt_panics_iff[of "\<lparr>Prices = [?btc, ?eth]\<rparr>" 1] by simp
  moreover have "\<exists>v. GetPriceAt \<lparr>Prices = [?btc]\<rparr> (- 1) = Panicked v"
    using GetPriceAt_panics_iff[of "\<lparr>Prices = [?btc]\<rparr>" "- 1"] by simp
  moreover have "\<exists>v. GetPriceAt \<lparr>Prices = [?btc]\<rparr> 1 = Panicked v"
    using GetPriceAt_panics_iff[of "\<lparr>Prices = [?btc]\<rparr>" 1] by simp
  ultimately show ?thesis by blast
qed

section \<open>FetchCryptoPrices: the executions of one call\<close>

lemma image_mset_remove1:
  "k \<in> set xs \<Longrightarrow> image_mset m (mset xs) = add_mset (m k) (image_mset m (mset (remove1 k xs)))"
  by (induction xs) auto

lemma fetch_inv_init: "fetch_inv m n (init_state n)"
  by (simp add: fetch_inv_def init_state_def taken_def)

lemma fetch_inv_sizes:
  assumes "fetch_inv m n s"
  shows "length (running s) + length (results s) + length (errors s) + length (prices s)
         + size (taken s) = n"
proof -
  from assms have "size (image_mset m (mset (running s)) + image_mset ToResults (mset (results s)) +
        image_mset ToErrors (mset (errors s)) + image_mset ToResults (mset (prices s)) + taken s)
        = size (image_mset m (mset [0..<n]))"
    by (simp add: fetch_inv_def)
  then show ?thesis by simp
qed

lemma send_Some:
  assumes "fetch_inv m n s" "k \<in> set (running s)"
  shows "\<exists>s'. send n x s = Some s'"
proof -
  from assms(2) have "0 < length (running s)" by (cases "running s") auto
  with fetch_inv_sizes[OF assms(1)] have "length (results s) < n" "length (errors s) < n"
    by linarith+
  then show ?thesis by (cases x) simp_all
qed

lemma step_preserves_inv:
  assumes inv: "fetch_inv m n s" and g: "\<forall>k<n. g k = Returned (m k)"
    and st: "step g n s a = Some s'"
  shows "fetch_inv m n s'"
proof -
  from inv have cr: "crashed s = None" by (simp add: fetch_inv_def)
  show ?thesis
  proof (cases a)
    case (Finish k)
    with st cr have kin: "k \<in> set (running s)" by (auto simp: step_def split: if_splits)
    with inv have kn: "k < n" by (auto simp: fetch_inv_def)
    with g have gk: "g k = Returned (m k)" by simp
    from st cr Finish kin gk obtain s1 where s1: "send n (m k) s = Some s1"
      and s': "s' = s1\<lparr>running := remove1 k (running s)\<rparr>"
      by (auto simp: step_def split: option.splits)
    have sub: "set (remove1 k (running s)) \<subseteq> {0..<n}"
      using inv set_remove1_subset[of k "running s"] by (auto simp: fetch_inv_def)
    show ?thesis
    proof (cases "m k")
      case (ToResults p)
      with s1 s' have "s' = s\<lparr>results := results s @ [p], running := remove1 k (running s)\<rparr>"
        by (auto split: if_splits)
      with inv sub ToResults image_mset_remove1[OF kin, of m] show ?thesis
        by (simp add: fetch_inv_def taken_def split: option.splits prod.splits)
    next
      case (ToErrors e)
      with s1 s' have "s' = s\<lparr>errors := errors s @ [e], running := remove1 k (running s)\<rparr>"
        by (auto split: if_splits)
      with inv sub ToErrors image_mset_remove1[OF kin, of m] show ?thesis
        by (simp add: fetch_inv_def taken_def split: option.splits prod.splits)
    qed
  next
    case RecvResult
    with st cr obtain p rest where "results s = p # rest" "returned s = None"
      and "s' = s\<lparr>results := rest, prices := prices s @ [p], loop_i := loop_i s + 1\<rparr>"
      by (auto simp: step_def split: if_splits list.splits)
    with inv show ?thesis by (simp add: fetch_inv_def taken_def)
  next
    case RecvError
    with st cr obtain e rest where "errors s = e # rest" "returned s = None"
      and "s' = s\<lparr>errors := rest, returned := Some ([], Some e)\<rparr>"
      by (auto simp: step_def split: if_splits list.splits)
    with inv show ?thesis by (simp add: fetch_inv_def taken_def)
  next
    case Return
    with st cr have r: "returned s = None" and ge: "\<not> loop_i s < n"
      and s': "s' = s\<lparr>returned := Some (prices s, None)\<rparr>"
      by (auto simp: step_def split: if_splits)
    from fetch_inv_sizes[OF inv] have "length (prices s) \<le> n" by linarith
    with inv ge have "length (prices s) = n" by (simp add: fetch_inv_def)
    with inv r s' show ?thesis by (simp add: fetch_inv_def taken_def)
  qed
qed

lemma run_preserves_inv:
  assumes "fetch_inv m n s" "\<forall>k<n. g k = Returned (m k)" "run g n s as = Some s'"
  shows "fetch_inv m n s'"
  using assms
proof (induction as arbitrary: s)
  case Nil
  then show ?case by simp
next
  case (Cons a as)
  from Cons.prems(3) obtain s1 where s1: "step g n s a = Some s1" and r: "run g n s1 as = Some s'"
    by (auto split: option.splits)
  from step_preserves_inv[OF Cons.prems(1,2) s1] have "fetch_inv m n s1" .
  from Cons.IH[OF this Cons.prems(2) r] show ?case .
qed

lemma run_append:
  "run g n s (as @ bs) = (case run g n s as of None \<Rightarrow> None | Some s' \<Rightarrow> run g n s' bs)"
  by (induction as arbitrary: s) (auto split: option.splits)

lemma step_steps_left:
  assumes inv: "fetch_inv m n s" and g: "\<forall>k<n. g k = Returned (m k)"
    and st: "step g n s a = Some s'"
  shows "steps_left n s = Suc (steps_left n s')"
proof -
  from inv have cr: "crashed s = None" by (simp add: fetch_inv_def)
  show ?thesis
  proof (cases a)
    case (Finish k)
    with st cr have kin: "k \<in> set (running s)" by (auto simp: step_def split: if_splits)
    with inv have kn: "k < n" by (auto simp: fetch_inv_def)
    with g have gk: "g k = Returned (m k)" by simp
    from st cr Finish kin gk obtain s1 where s1: "send n (m k) s = Some s1"
      and s': "s' = s1\<lparr>running := remove1 k (running s)\<rparr>"
      by (auto simp: step_def split: option.splits)
    from s1 have "loop_i s1 = loop_i s" "returned s1 = returned s"
      by (cases "m k"; auto split: if_splits)+
    moreover from kin have "0 < length (running s)" by (cases "running s") auto
    with kin have "length (running s) = Suc (length (remove1 k (running s)))"
      by (simp add: length_remove1)
    ultimately show ?thesis using s' by (simp add: steps_left_def)
  next
    case RecvResult
    with st cr show ?thesis
      by (auto simp: step_def steps_left_def split: if_splits list.splits)
  next
    case RecvError
    with st cr show ?thesis
      by (auto simp: step_def steps_left_def split: if_splits list.splits)
  next
    case Return
    with st cr show ?thesis
      by (auto simp: step_def steps_left_def split: if_splits)
  qed
qed

lemma run_steps_left:
  assumes "fetch_inv m n s" "\<forall>k<n. g k = Returned (m k)" "run g n s as = Some s'"
  shows "steps_left n s = length as + steps_left n s'"
  using assms
proof (induction as arbitrary: s)
  case Nil
  then show ?case by simp
next
  case (Cons a as)
  from Cons.prems(3) obtain s1 where s1: "step g n s a = Some s1" and r: "run g n s1 as = Some s'"
    by (auto split: option.splits)
  from step_preserves_inv[OF Cons.prems(1,2) s1] have i1: "fetch_inv m n s1" .
  from Cons.IH[OF i1 Cons.prems(2) r] step_steps_left[OF Cons.prems(1,2) s1] show ?case by simp
qed

lemma progress:
  assumes inv: "fetch_inv m n s" and g: "\<forall>k<n. g k = Returned (m k)"
    and nr: "returned s = None"
  shows "\<exists>a s'. step g n s a = Some s'"
proof -
  from inv have cr: "crashed s = None" by (simp add: fetch_inv_def)
  show ?thesis
  proof (cases "loop_i s < n")
    case False
    with nr cr have "step g n s Return = Some (s\<lparr>returned := Some (prices s, None)\<rparr>)"
      by (simp add: step_def)
    then show ?thesis by blast
  next
    case True
    show ?thesis
    proof (cases "results s")
      case (Cons p rest)
      with True nr cr have "\<exists>s'. step g n s RecvResult = Some s'" by (simp add: step_def)
      then show ?thesis by blast
    next
      case Nil
      show ?thesis
      proof (cases "errors s")
        case (Cons e rest)
        with True nr cr have "\<exists>s'. step g n s RecvError = Some s'" by (simp add: step_def)
        then show ?thesis by blast
      next
        case Nil2: Nil
        from nr have "taken s = {#}" by (simp add: taken_def)
        with fetch_inv_sizes[OF inv] Nil Nil2 have "length (running s) + length (prices s) = n"
          by simp
        moreover from inv have "loop_i s = length (prices s)" by (simp add: fetch_inv_def)
        ultimately have "running s \<noteq> []" using True by auto
        then obtain k ks where rk: "running s = k # ks" by (cases "running s") auto
        then have kin: "k \<in> set (running s)" by simp
        with inv have "k < n" by (auto simp: fetch_inv_def)
        with g have gk: "g k = Returned (m k)" by simp
        from send_Some[OF inv kin] obtain s1 where "send n (m k) s = Some s1" by blast
        with kin gk cr have "\<exists>s'. step g n s (Finish k) = Some s'" by (simp add: step_def)
        then show ?thesis by blast
      qed
    qed
  qed
qed

lemma goroutine_returns: "\<exists>m. goroutine w c k cryptoID = Returned m"
  by (cases "fetch_body w c k cryptoID") (simp_all add: goroutine_def)

lemma units_msgs: "\<exists>m. \<forall>k. units w c cryptoIDs k = Returned (m k)"
proof -
  have "\<forall>k. \<exists>x. units w c cryptoIDs k = Returned x"
    by (simp add: units_def goroutine_returns)
  then show ?thesis by (rule choice)
qed

lemma FetchCryptoPrices_run_inv:
  assumes "FetchCryptoPrices_run w c cryptoIDs sched = Some s"
    and "\<forall>k. units w c cryptoIDs k = Returned (m k)"
  shows "fetch_inv m (length cryptoIDs) s"
proof -
  from assms(2) have "\<forall>k<length cryptoIDs. units w c cryptoIDs k = Returned (m k)" by simp
  from run_preserves_inv[OF fetch_inv_init this] assms(1) show ?thesis
    by (simp add: FetchCryptoPrices_run_def)
qed

lemma FetchCryptoPrices_Some:
  "FetchCryptoPrices w c cryptoIDs sched = Some r \<longleftrightarrow>
   (\<exists>s. FetchCryptoPrices_run w c cryptoIDs sched = Some s \<and> returned s = Some r)"
  by (simp add: FetchCryptoPrices_def split: option.splits)

lemma result_success:
  assumes inv: "fetch_inv m n s" and r: "returned s = Some (ps, None)"
  shows "length ps = n \<and> image_mset ToResults (mset ps) = image_mset m (mset [0..<n])"
proof -
  from inv r have p1: "prices s = ps" and p2: "length ps = n" by (auto simp: fetch_inv_def)
  from r have t: "taken s = {#}" by (simp add: taken_def)
  from fetch_inv_sizes[OF inv] p1 p2 t have e: "running s = []" "results s = []" "errors s = []"
    by simp_all
  from inv have "image_mset m (mset (running s)) + image_mset ToResults (mset (results s)) +
        image_mset ToErrors (mset (errors s)) + image_mset ToResults (mset (prices s)) + taken s
        = image_mset m (mset [0..<n])"
    by (simp add: fetch_inv_def)
  then have "image_mset ToResults (mset ps) = image_mset m (mset [0..<n])"
    unfolding e t p1 by simp
  with p2 show ?thesis by simp
qed

lemma result_error:
  assumes inv: "fetch_inv m n s" and r: "returned s = Some (ps, Some e)"
  shows "ps = [] \<and> (\<exists>k<n. m k = ToErrors e)"
proof -
  from inv r have ps: "ps = []" by (simp add: fetch_inv_def)
  from r have t: "taken s = {#ToErrors e#}" by (simp add: taken_def)
  from inv have eq: "image_mset m (mset (running s)) + image_mset ToResults (mset (results s)) +
        image_mset ToErrors (mset (errors s)) + image_mset ToResults (mset (prices s)) + taken s
        = image_mset m (mset [0..<n])"
    by (simp add: fetch_inv_def)
  have "ToErrors e \<in># image_mset m (mset (running s)) + image_mset ToResults (mset (results s)) +
        image_mset ToErrors (mset (errors s)) + image_mset ToResults (mset (prices s)) + taken s"
    unfolding t by simp
  then have "ToErrors e \<in># image_mset m (mset [0..<n])" unfolding eq .
  then obtain k where "k \<in># mset [0..<n]" "m k = ToErrors e" by (auto simp del: mset_upt)
  then have "\<exists>k<n. m k = ToErrors e" by auto
  with ps show ?thesis by simp
qed

lemma can_return:
  assumes "fetch_inv m n s" "\<forall>k<n. g k = Returned (m k)"
  shows "\<exists>as s'. run g n s as = Some s' \<and> returned s' \<noteq> None"
  using assms
proof (induction "steps_left n s" arbitrary: s)
  case 0
  then have "returned s \<noteq> None" by (simp add: steps_left_def split: if_splits)
  then have "run g n s [] = Some s \<and> returned s \<noteq> None" by simp
  then show ?case by blast
next
  case (Suc x)
  show ?case
  proof (cases "returned s")
    case (Some r)
    then have "run g n s [] = Some s \<and> returned s \<noteq> None" by simp
    then show ?thesis by blast
  next
    case None
    from progress[OF Suc.prems None] obtain a s1 where st: "step g n s a = Some s1" by blast
    from step_steps_left[OF Suc.prems st] Suc.hyps(2) have "x = steps_left n s1" by simp
    moreover from step_preserves_inv[OF Suc.prems st] have "fetch_inv m n s1" .
    ultimately obtain as s' where "run g n s1 as = Some s'" "returned s' \<noteq> None"
      using Suc.hyps(1) Suc.prems(2) by blast
    with st have "run g n s (a # as) = Some s' \<and> returned s' \<noteq> None" by simp
    then show ?thesis by blast
  qed
qed

lemma delivered_step:
  assumes inv: "fetch_inv m n s" and g: "\<forall>k<n. g k = Returned (m k)"
    and st: "step g n s a = Some s'" and mk: "m k = ToErrors e" and kn: "k < n"
    and J: "k \<in> set (running s) \<or> e \<in> set (errors s) \<or> returned s = Some ([], Some e)"
  shows "k \<in> set (running s') \<or> e \<in> set (errors s') \<or> returned s' = Some ([], Some e)"
proof -
  from inv have cr: "crashed s = None" by (simp add: fetch_inv_def)
  show ?thesis
  proof (cases a)
    case (Finish j)
    with st cr have jin: "j \<in> set (running s)" by (auto simp: step_def split: if_splits)
    with inv have "j < n" by (auto simp: fetch_inv_def)
    with g have gj: "g j = Returned (m j)" by simp
    from st cr Finish jin gj obtain s1 where s1: "send n (m j) s = Some s1"
      and s': "s' = s1\<lparr>running := remove1 j (running s)\<rparr>"
      by (auto simp: step_def split: option.splits)
    from s1 have keep: "set (errors s) \<subseteq> set (errors s1)" "returned s1 = returned s"
      by (cases "m j"; auto split: if_splits)+
    show ?thesis
    proof (cases "j = k")
      case True
      with s1 mk have "e \<in> set (errors s1)" by (auto split: if_splits)
      with s' show ?thesis by simp
    next
      case False
      then have "k \<in> set (running s) \<Longrightarrow> k \<in> set (remove1 j (running s))" by simp
      with J keep s' show ?thesis by auto
    qed
  next
    case RecvResult
    with st cr J show ?thesis
      by (auto simp: step_def split: if_splits list.splits)
  next
    case RecvError
    with st cr J show ?thesis
      by (auto simp: step_def split: if_splits list.splits)
  next
    case Return
    with st cr J show ?thesis
      by (auto simp: step_def split: if_splits)
  qed
qed

lemma delivered_run:
  assumes "fetch_inv m n s" "\<forall>k<n. g k = Returned (m k)" "run g n s as = Some s'"
    "m k = ToErrors e" "k < n"
    "k \<in> set (running s) \<or> e \<in> set (errors s) \<or> returned s = Some ([], Some e)"
  shows "k \<in> set (running s') \<or> e \<in> set (errors s') \<or> returned s' = Some ([], Some e)"
  using assms
proof (induction as arbitrary: s)
  case Nil
  then show ?case by simp
next
  case (Cons a as)
  from Cons.prems(3) obtain s1 where s1: "step g n s a = Some s1" and r: "run g n s1 as = Some s'"
    by (auto split: option.splits)
  from step_preserves_inv[OF Cons.prems(1,2) s1] have i1: "fetch_inv m n s1" .
  from delivered_step[OF Cons.prems(1,2) s1 Cons.prems(4,5,6)]
  have "k \<in> set (running s1) \<or> e \<in> set (errors s1) \<or> returned s1 = Some ([], Some e)" .
  from Cons.IH[OF i1 Cons.prems(2) r Cons.prems(4,5) this] show ?case .
qed

lemma steps_left_init: "steps_left n (init_state n) = 2 * n + 1"
  by (simp add: steps_left_def init_state_def)

lemma errors_waiting_loop_i:
  assumes inv: "fetch_inv m n s" and r: "returned s = None" and e: "errors s = e # rest"
  shows "loop_i s < n"
proof -
  from r have "taken s = {#}" by (simp add: taken_def)
  with fetch_inv_sizes[OF inv] e have "length (prices s) < n" by simp
  with inv show ?thesis by (simp add: fetch_inv_def)
qed

text \<open>
  Claim C1: for every list of asset identifiers (non-empty or not),
  \<^item> every unit of work ends having sent exactly one outcome, a price record or an error;
  \<^item> whenever \<^verbatim>\<open>FetchCryptoPrices\<close> has returned, under any schedule, it has returned
    either no error and one price record per identifier, which together are the records
    that the units of work sent (in some order), or a nil slice and an error that one of
    the units of work sent;
  \<^item> an error taken from the channel ends the call at once: when an error waits in the
    channel and the \<^verbatim>\<open>select\<close> takes it, the call has returned nil and that error;
  \<^item> the call does return: no execution has more than \<open>2 * n + 1\<close> steps, no panic
    leaves a goroutine, an execution in which the call has not returned has a next step (no
    send blocks and the loop never waits for ever), and every execution can be continued
    until the call has returned.
\<close>

theorem FetchCryptoPrices_collects:
  "(\<forall>k<length cryptoIDs. \<exists>m. units w c cryptoIDs k = Returned m)
   \<and> (\<forall>sched ps err. FetchCryptoPrices w c cryptoIDs sched = Some (ps, err) \<longrightarrow>
        (err = None \<and> length ps = length cryptoIDs \<and>
         mset (map (\<lambda>p. Returned (ToResults p)) ps)
           = mset (map (units w c cryptoIDs) [0..<length cryptoIDs]))
        \<or> (\<exists>e k. err = Some e \<and> ps = [] \<and> k < length cryptoIDs \<and>
              units w c cryptoIDs k = Returned (ToErrors e)))
   \<and> (\<forall>sched s e rest. FetchCryptoPrices_run w c cryptoIDs sched = Some s \<and>
          returned s = None \<and> errors s = e # rest \<longrightarrow>
          FetchCryptoPrices w c cryptoIDs (sched @ [RecvError]) = Some ([], Some e))
   \<and> (\<forall>sched s. FetchCryptoPrices_run w c cryptoIDs sched = Some s \<longrightarrow>
          crashed s = None \<and> length sched \<le> 2 * length cryptoIDs + 1 \<and>
          (returned s = None \<longrightarrow>
             (\<exists>a s'. FetchCryptoPrices_run w c cryptoIDs (sched @ [a]) = Some s')) \<and>
          (\<exists>ext r. FetchCryptoPrices w c cryptoIDs (sched @ ext) = Some r))"
proof -
  let ?n = "length cryptoIDs"
  let ?g = "units w c cryptoIDs"
  from units_msgs obtain m where m: "\<forall>k. ?g k = Returned (m k)" by blast
  then have mn: "\<forall>k<?n. ?g k = Returned (m k)" by simp
  have one: "\<forall>k<?n. \<exists>x. ?g k = Returned x" using m by blast
  have res: "(err = None \<and> length ps = ?n \<and>
         mset (map (\<lambda>p. Returned (ToResults p)) ps) = mset (map ?g [0..<?n]))
        \<or> (\<exists>e k. err = Some e \<and> ps = [] \<and> k < ?n \<and> ?g k = Returned (ToErrors e))"
    if r: "FetchCryptoPrices w c cryptoIDs sched = Some (ps, err)" for sched ps err
  proof -
    from r obtain s where s: "FetchCryptoPrices_run w c cryptoIDs sched = Some s"
      and rs: "returned s = Some (ps, err)"
      by (auto simp: FetchCryptoPrices_Some)
    from FetchCryptoPrices_run_inv[OF s m] have inv: "fetch_inv m ?n s" .
    show ?thesis
    proof (cases err)
      case None
      with result_success[OF inv] rs have l: "length ps = ?n"
        and eq: "image_mset ToResults (mset ps) = image_mset m (mset [0..<?n])" by simp_all
      from eq have "image_mset Returned (image_mset ToResults (mset ps))
          = image_mset Returned (image_mset m (mset [0..<?n]))" by simp
      then have "image_mset (\<lambda>p. Returned (ToResults p)) (mset ps)
          = image_mset (\<lambda>k. Returned (m k)) (mset [0..<?n])"
        by (simp add: multiset.map_comp comp_def del: mset_upt)
      moreover have "(\<lambda>k. Returned (m k)) = ?g" using m by auto
      ultimately have "mset (map (\<lambda>p. Returned (ToResults p)) ps) = mset (map ?g [0..<?n])"
        by (simp del: mset_upt)
      with None l show ?thesis by blast
    next
      case (Some e)
      with result_error[OF inv] rs obtain k where "ps = []" "k < ?n" "m k = ToErrors e" by blast
      with m Some show ?thesis by auto
    qed
  qed
  have short: "FetchCryptoPrices w c cryptoIDs (sched @ [RecvError]) = Some ([], Some e)"
    if s: "FetchCryptoPrices_run w c cryptoIDs sched = Some s" and r: "returned s = None"
      and e: "errors s = e # rest" for sched s e rest
  proof -
    from FetchCryptoPrices_run_inv[OF s m] have inv: "fetch_inv m ?n s" .
    then have cr: "crashed s = None" by (simp add: fetch_inv_def)
    from errors_waiting_loop_i[OF inv r e] have "loop_i s < ?n" .
    with cr r e have "step ?g ?n s RecvError = Some (s\<lparr>errors := rest, returned := Some ([], Some e)\<rparr>)"
      by (simp add: step_def)
    with s show ?thesis
      by (simp add: FetchCryptoPrices_def FetchCryptoPrices_run_def run_append)
  qed
  have live: "crashed s = None \<and> length sched \<le> 2 * ?n + 1 \<and>
          (returned s = None \<longrightarrow>
             (\<exists>a s'. FetchCryptoPrices_run w c cryptoIDs (sched @ [a]) = Some s')) \<and>
          (\<exists>ext r. FetchCryptoPrices w c cryptoIDs (sched @ ext) = Some r)"
    if s: "FetchCryptoPrices_run w c cryptoIDs sched = Some s" for sched s
  proof -
    from FetchCryptoPrices_run_inv[OF s m] have inv: "fetch_inv m ?n s" .
    then have cr: "crashed s = None" by (simp add: fetch_inv_def)
    from s have run: "run ?g ?n (init_state ?n) sched = Some s"
      by (simp add: FetchCryptoPrices_run_def)
    from run_steps_left[OF fetch_inv_init mn run] have "length sched \<le> 2 * ?n + 1"
      by (simp add: steps_left_init)
    moreover from can_return[OF inv mn] obtain ext s' where
      "run ?g ?n s ext = Some s'" "returned s' \<noteq> None" by blast
    with run have "\<exists>r. FetchCryptoPrices w c cryptoIDs (sched @ ext) = Some r"
      by (auto simp: FetchCryptoPrices_def FetchCryptoPrices_run_def run_append)
    moreover have "\<exists>a s'. FetchCryptoPrices_run w c cryptoIDs (sched @ [a]) = Some s'"
      if "returned s = None"
    proof -
      from progress[OF inv mn that] obtain a s' where "step ?g ?n s a = Some s'" by blast
      with run have "FetchCryptoPrices_run w c cryptoIDs (sched @ [a]) = Some s'"
        by (simp add: FetchCryptoPrices_run_def run_append)
      then show ?thesis by blast
    qed
    ultimately show ?thesis using cr by blast
  qed
  from one res short live show ?thesis by blast
qed

theorem FetchCryptoPrices_collects_witness:
  "FetchCryptoPrices (mixed_server 500) test_client [''bitcoin'', ''ethereum'']
      [Finish 1, Finish 0, RecvResult, RecvError]
    = Some ([], Some (ErrorNew ''panic occurred: API returned status code: 500''))
   \<and> (\<exists>k<2. units (mixed_server 500) test_client [''bitcoin'', ''ethereum''] k
         = Returned (ToErrors (ErrorNew ''panic occurred: API returned status code: 500'')))
   \<and> FetchCryptoPrices (test_server 200 success_body) test_client [''bitcoin'']
      [Finish 0, RecvResult, Return]
    = Some ([\<lparr>ID = ''bitcoin'', Symbol = [], Name = [], CurrentPrice = Finite 50000,
              LastUpdated = ''2026-10-31T13:05:09Z''\<rparr>], None)
   \<and> mset (map (units (test_server 200 success_body) test_client [''bitcoin'']) [0..<1])
    = {#Returned (ToResults \<lparr>ID = ''bitcoin'', Symbol = [], Name = [],
          CurrentPrice = Finite 50000, LastUpdated = ''2026-10-31T13:05:09Z''\<rparr>)#}
   \<and> FetchCryptoPrices (mixed_server 500) test_client [''bitcoin'', ''ethereum'']
      [Finish 1, Finish 0, RecvError]
    = Some ([], Some (ErrorNew ''panic occurred: API returned status code: 500''))
   \<and> (\<exists>a s. FetchCryptoPrices_run (mixed_server 500) test_client [''bitcoin'', ''ethereum'']
          ([Finish 1, Finish 0] @ [a]) = Some s)
   \<and> (\<exists>ext r. FetchCryptoPrices (mixed_server 500) test_client [''bitcoin'', ''ethereum'']
          ([Finish 1, Finish 0] @ ext) = Some r)"
proof -
  let ?ids = "[''bitcoin'', ''ethereum'']"
  let ?e = "ErrorNew ''panic occurred: API returned status code: 500''"
  let ?p = "\<lparr>ID = ''bitcoin'', Symbol = [], Name = [], CurrentPrice = Finite 50000,
              LastUpdated = ''2026-10-31T13:05:09Z''\<rparr>"
  note all = FetchCryptoPrices_collects[of ?ids "mixed_server 500" test_client]
  note one = FetchCryptoPrices_collects[of "[''bitcoin'']" "test_server 200 success_body" test_client]
  have a: "FetchCryptoPrices (mixed_server 500) test_client ?ids
      [Finish 1, Finish 0, RecvResult, RecvError] = Some ([], Some ?e)"
    by code_simp
  from all a have "(\<exists>e k. Some ?e = Some e \<and> k < length ?ids \<and>
      units (mixed_server 500) test_client ?ids k = Returned (ToErrors e))"
    by blast
  then obtain k where "k < length ?ids"
    and uk: "units (mixed_server 500) test_client ?ids k = Returned (ToErrors ?e)"
    by blast
  then have "k < 2" by simp
  with uk have b: "\<exists>k<2. units (mixed_server 500) test_client ?ids k = Returned (ToErrors ?e)"
    by blast
  have c: "FetchCryptoPrices (test_server 200 success_body) test_client [''bitcoin'']
      [Finish 0, RecvResult, Return] = Some ([?p], None)"
    by code_simp
  from one c have "mset (map (\<lambda>p. Returned (ToResults p)) [?p])
      = mset (map (units (test_server 200 success_body) test_client [''bitcoin''])
          [0..<length [''bitcoin'']])"
    by blast
  then have d: "mset (map (units (test_server 200 success_body) test_client [''bitcoin'']) [0..<1])
      = {#Returned (ToResults ?p)#}"
    by (simp del: mset_upt upt_Suc)
  have mid: "FetchCryptoPrices_run (mixed_server 500) test_client ?ids [Finish 1, Finish 0]
      = Some \<lparr>running = [], results = [?p], errors = [?e], prices = [], loop_i = 0,
          returned = None, crashed = None\<rparr>"
    by code_simp
  from all mid have g: "(returned \<lparr>running = [], results = [?p], errors = [?e], prices = [],
        loop_i = 0, returned = None, crashed = None\<rparr> = None \<longrightarrow>
      (\<exists>a s. FetchCryptoPrices_run (mixed_server 500) test_client ?ids
          ([Finish 1, Finish 0] @ [a]) = Some s)) \<and>
      (\<exists>ext r. FetchCryptoPrices (mixed_server 500) test_client ?ids
          ([Finish 1, Finish 0] @ ext) = Some r)"
    by blast
  then have g1: "\<exists>a s. FetchCryptoPrices_run (mixed_server 500) test_client ?ids
          ([Finish 1, Finish 0] @ [a]) = Some s"
    and g2: "\<exists>ext r. FetchCryptoPrices (mixed_server 500) test_client ?ids
          ([Finish 1, Finish 0] @ ext) = Some r"
    by simp_all
  from mid have "\<exists>s. FetchCryptoPrices_run (mixed_server 500) test_client ?ids [Finish 1, Finish 0]
      = Some s \<and> returned s = None \<and> errors s = [?e]"
    by simp
  with all have e: "FetchCryptoPrices (mixed_server 500) test_client ?ids
      ([Finish 1, Finish 0] @ [RecvError]) = Some ([], Some ?e)"
    by blast
  from a b c d e g1 g2 show ?thesis by simp
qed

section \<open>FetchCryptoPrices: what a unit of work sends, and what the call returns\<close>

lemma units_transport_error:
  "http_get w k (price_url c (cryptoIDs ! k)) = Inl err \<Longrightarrow>
   units w c cryptoIDs k = Returned (ToErrors err)"
  by (simp add: units_def goroutine_def fetch_body_def)

lemma fetch_body_status:
  "http_get w k (price_url c cryptoID) = Inr resp \<Longrightarrow> StatusCode resp \<noteq> 200 \<Longrightarrow>
   fetch_body w c k cryptoID
     = Panicked (''API returned status code: '' @ string_of_int (StatusCode resp))"
  by (simp add: fetch_body_def StatusOK_def)

lemma units_status:
  "http_get w k (price_url c (cryptoIDs ! k)) = Inr resp \<Longrightarrow> StatusCode resp \<noteq> 200 \<Longrightarrow>
   units w c cryptoIDs k
     = Returned (ToErrors (ErrorNew
         (''panic occurred: API returned status code: '' @ string_of_int (StatusCode resp))))"
  by (simp add: units_def goroutine_def fetch_body_status)



lemma units_record:
  assumes "units w c cryptoIDs k = Returned (ToResults p)"
  shows "ID p = cryptoIDs ! k \<and> Symbol p = [] \<and> Name p = [] \<and>
         LastUpdated p = format_rfc3339 (now w k)"
  using assms
  by (auto simp: units_def goroutine_def fetch_body_def Let_def
      split: sum.splits if_splits exit.splits)

lemma Validate_no_symbol: "Symbol p = [] \<Longrightarrow> Validate p \<noteq> None"
  by (simp add: Validate_def)

lemma no_success_with_error_unit:
  assumes inv: "fetch_inv m n s" and k: "k < n" and mk: "m k = ToErrors e"
  shows "returned s \<noteq> Some (ps, None)"
proof
  assume "returned s = Some (ps, None)"
  from result_success[OF inv this]
  have "image_mset ToResults (mset ps) = image_mset m (mset [0..<n])" by simp
  moreover from k have "m k \<in># image_mset m (mset [0..<n])" by simp
  ultimately have "ToErrors e \<in># image_mset ToResults (mset ps)" using mk by simp
  then show False by auto
qed

lemma first_unit_then_error:
  assumes k: "k < n" and gk: "g k = Returned (ToErrors e)"
  shows "run g n (init_state n) [Finish k, RecvError] \<noteq> None \<and>
    (\<forall>s. run g n (init_state n) [Finish k, RecvError] = Some s \<longrightarrow> returned s = Some ([], Some e))"
  using assms by (simp add: step_def init_state_def)

lemma schedule_error_first:
  assumes k: "k < length cryptoIDs" and u: "units w c cryptoIDs k = Returned (ToErrors e)"
  shows "FetchCryptoPrices w c cryptoIDs [Finish k, RecvError] = Some ([], Some e)"
proof -
  from first_unit_then_error[of k "length cryptoIDs" "units w c cryptoIDs" e, OF k u] obtain s
    where "run (units w c cryptoIDs) (length cryptoIDs) (init_state (length cryptoIDs))
        [Finish k, RecvError] = Some s" and "returned s = Some ([], Some e)"
    by blast
  then show ?thesis by (simp add: FetchCryptoPrices_def FetchCryptoPrices_run_def)
qed

lemma send_keeps_returned: "send n x s = Some s' \<Longrightarrow> returned s' = returned s"
  by (cases x) (auto split: if_splits)

lemma step_keeps_returned:
  assumes "returned s = Some r" "step g n s a = Some s'"
  shows "returned s' = Some r"
proof (cases a)
  case (Finish k)
  with assms show ?thesis
    by (auto simp: step_def send_keeps_returned split: if_splits exit.splits option.splits)
next
  case RecvResult
  with assms show ?thesis by (auto simp: step_def split: if_splits)
next
  case RecvError
  with assms show ?thesis by (auto simp: step_def split: if_splits)
next
  case Return
  with assms show ?thesis by (auto simp: step_def split: if_splits)
qed

lemma run_keeps_returned:
  "returned s = Some r \<Longrightarrow> run g n s as = Some s' \<Longrightarrow> returned s' = Some r"
proof (induction as arbitrary: s)
  case Nil
  then show ?case by simp
next
  case (Cons a as)
  from Cons.prems(2) obtain s1 where s1: "step g n s a = Some s1" and r: "run g n s1 as = Some s'"
    by (auto split: option.splits)
  from step_keeps_returned[OF Cons.prems(1) s1] have "returned s1 = Some r" .
  from Cons.IH[OF this r] show ?case .
qed

lemma returned_for_good:
  assumes "FetchCryptoPrices w c cryptoIDs sched = Some r"
    and "FetchCryptoPrices w c cryptoIDs (sched @ ext) = Some r'"
  shows "r' = r"
proof -
  let ?g = "units w c cryptoIDs" and ?n = "length cryptoIDs"
  from assms(1) obtain s where s: "run ?g ?n (init_state ?n) sched = Some s"
    and rs: "returned s = Some r"
    by (auto simp: FetchCryptoPrices_def FetchCryptoPrices_run_def split: option.splits)
  from assms(2) s obtain s' where s': "run ?g ?n s ext = Some s'" and rs': "returned s' = Some r'"
    by (auto simp: FetchCryptoPrices_def FetchCryptoPrices_run_def run_append split: option.splits)
  from run_keeps_returned[OF rs s'] rs' show ?thesis by simp
qed

lemma failing_unit_no_success:
  assumes k: "k < length cryptoIDs" and u: "units w c cryptoIDs k = Returned (ToErrors e)"
  shows "FetchCryptoPrices w c cryptoIDs sched \<noteq> Some (ps, None)"
proof
  assume r: "FetchCryptoPrices w c cryptoIDs sched = Some (ps, None)"
  from units_msgs obtain m where m: "\<forall>j. units w c cryptoIDs j = Returned (m j)" by blast
  with u have mk: "m k = ToErrors e" by simp
  from r obtain s where s: "FetchCryptoPrices_run w c cryptoIDs sched = Some s"
    and rs: "returned s = Some (ps, None)"
    by (auto simp: FetchCryptoPrices_Some)
  from FetchCryptoPrices_run_inv[OF s m] have inv: "fetch_inv m (length cryptoIDs) s" .
  from no_success_with_error_unit[OF inv k mk, where ps = ps] rs show False by simp
qed

text \<open>
  Claim C4, as the specification states it, has every non-2xx status converted into an
  error that is delivered to the caller of \<^verbatim>\<open>FetchCryptoPrices\<close>. The collecting loop
  returns at the first error it takes from the channel (\<^verbatim>\<open>return nil, err\<close>), so of two
  units of work that get a non-2xx status only one error reaches the caller. Here the
  answers are 500 and 404 and both units have run: the call has returned the error of
  the 500, the error of the 404 is left in the channel, and however the execution goes
  on, what the call has returned stays the error of the 500.
\<close>

theorem second_error_not_delivered_counterexample:
  "http_get (two_status_server 500 404) 1 (price_url test_client ([''bitcoin'', ''dogecoin''] ! 1))
     = Inr \<lparr>StatusCode = 404, Body = success_body\<rparr>
   \<and> (299 :: int) < 404
   \<and> units (two_status_server 500 404) test_client [''bitcoin'', ''dogecoin''] 1
     = Returned (ToErrors (ErrorNew ''panic occurred: API returned status code: 404''))
   \<and> FetchCryptoPrices_run (two_status_server 500 404) test_client [''bitcoin'', ''dogecoin'']
       [Finish 0, Finish 1, RecvError]
     = Some \<lparr>running = [], results = [],
          errors = [ErrorNew ''panic occurred: API returned status code: 404''],
          prices = [], loop_i = 0,
          returned = Some ([], Some (ErrorNew ''panic occurred: API returned status code: 500'')),
          crashed = None\<rparr>
   \<and> ErrorNew ''panic occurred: API returned status code: 500''
     \<noteq> ErrorNew ''panic occurred: API returned status code: 404''
   \<and> \<not> (\<exists>ext r. FetchCryptoPrices (two_status_server 500 404) test_client
          [''bitcoin'', ''dogecoin''] ([Finish 0, Finish 1, RecvError] @ ext) = Some r \<and>
        r \<noteq> ([], Some (ErrorNew ''panic occurred: API returned status code: 500'')))"
proof -
  let ?w = "two_status_server 500 404"
  let ?ids = "[''bitcoin'', ''dogecoin'']"
  let ?e5 = "ErrorNew ''panic occurred: API returned status code: 500''"
  let ?e4 = "ErrorNew ''panic occurred: API returned status code: 404''"
  have a: "http_get ?w 1 (price_url test_client (?ids ! 1))
      = Inr \<lparr>StatusCode = 404, Body = success_body\<rparr>"
    by (simp add: two_status_server_def)
  have b: "units ?w test_client ?ids 1 = Returned (ToErrors ?e4)" by code_simp
  have c: "FetchCryptoPrices_run ?w test_client ?ids [Finish 0, Finish 1, RecvError]
      = Some \<lparr>running = [], results = [], errors = [?e4], prices = [], loop_i = 0,
          returned = Some ([], Some ?e5), crashed = None\<rparr>"
    by code_simp
  then have r: "FetchCryptoPrices ?w test_client ?ids [Finish 0, Finish 1, RecvError]
      = Some ([], Some ?e5)"
    by (simp add: FetchCryptoPrices_def)
  have d: "\<not> (\<exists>ext r. FetchCryptoPrices ?w test_client ?ids
      ([Finish 0, Finish 1, RecvError] @ ext) = Some r \<and> r \<noteq> ([], Some ?e5))"
    using returned_for_good[OF r] by blast
  from a b c d show ?thesis by simp
qed

text \<open>
  Claim C4, amended: when the answer to the \<open>k\<close>-th identifier has a status outside
  200..299, the body of the unit of work panics, the deferred function recovers the panic,
  and the unit of work ends having sent the error
  \<^verbatim>\<open>panic occurred: API returned status code: N\<close> on the error channel. Under every
  schedule no panic leaves a goroutine (the process is never ended by one); once the unit
  has run, its error waits in the channel or is the error the call has returned; and
  whenever the call has returned, it has returned nil and an error. This error reaches the
  caller of \<^verbatim>\<open>FetchCryptoPrices\<close> when it is the first error the loop takes: so it does
  when the unit runs first and its error is taken, and, under every schedule, when every
  other unit of work sends a price record. When several units send errors, the call
  returns the first it takes and the others stay in the channel.
\<close>

theorem non_2xx_status_becomes_error:
  "k < length cryptoIDs \<and> http_get w k (price_url c (cryptoIDs ! k)) = Inr resp \<and>
   (StatusCode resp < 200 \<or> 299 < StatusCode resp) \<longrightarrow>
     fetch_body w c k (cryptoIDs ! k)
       = Panicked (''API returned status code: '' @ string_of_int (StatusCode resp)) \<and>
     units w c cryptoIDs k
       = Returned (ToErrors (ErrorNew
           (''panic occurred: API returned status code: '' @ string_of_int (StatusCode resp)))) \<and>
     (\<forall>sched s. FetchCryptoPrices_run w c cryptoIDs sched = Some s \<longrightarrow>
        crashed s = None \<and>
        (k \<in> set (running s) \<or>
         ErrorNew (''panic occurred: API returned status code: '' @ string_of_int (StatusCode resp))
           \<in> set (errors s) \<or>
         returned s = Some ([], Some (ErrorNew
           (''panic occurred: API returned status code: '' @ string_of_int (StatusCode resp)))))) \<and>
     (\<forall>sched ps err. FetchCryptoPrices w c cryptoIDs sched = Some (ps, err) \<longrightarrow>
        ps = [] \<and> err \<noteq> None) \<and>
     FetchCryptoPrices w c cryptoIDs [Finish k, RecvError]
       = Some ([], Some (ErrorNew
           (''panic occurred: API returned status code: '' @ string_of_int (StatusCode resp)))) \<and>
     ((\<forall>j<length cryptoIDs. j \<noteq> k \<longrightarrow> (\<exists>p. units w c cryptoIDs j = Returned (ToResults p))) \<longrightarrow>
      (\<forall>sched r. FetchCryptoPrices w c cryptoIDs sched = Some r \<longrightarrow>
         r = ([], Some (ErrorNew
           (''panic occurred: API returned status code: '' @ string_of_int (StatusCode resp))))))"
proof (intro impI, elim conjE)
  let ?n = "length cryptoIDs"
  let ?e = "ErrorNew (''panic occurred: API returned status code: '' @ string_of_int (StatusCode resp))"
  assume k: "k < ?n" and get: "http_get w k (price_url c (cryptoIDs ! k)) = Inr resp"
    and st: "StatusCode resp < 200 \<or> 299 < StatusCode resp"
  from st have ne: "StatusCode resp \<noteq> 200" by auto
  from fetch_body_status[OF get ne] have body: "fetch_body w c k (cryptoIDs ! k)
       = Panicked (''API returned status code: '' @ string_of_int (StatusCode resp))" .
  from units_status[OF get ne] have u: "units w c cryptoIDs k = Returned (ToErrors ?e)" .
  from units_msgs obtain m where m: "\<forall>j. units w c cryptoIDs j = Returned (m j)" by blast
  with u have mk: "m k = ToErrors ?e" by simp
  from m have mn: "\<forall>j<?n. units w c cryptoIDs j = Returned (m j)" by simp
  have reach: "crashed s = None \<and>
        (k \<in> set (running s) \<or> ?e \<in> set (errors s) \<or> returned s = Some ([], Some ?e))"
    if s: "FetchCryptoPrices_run w c cryptoIDs sched = Some s" for sched s
  proof -
    from FetchCryptoPrices_run_inv[OF s m] have "crashed s = None" by (simp add: fetch_inv_def)
    moreover from s have run: "run (units w c cryptoIDs) ?n (init_state ?n) sched = Some s"
      by (simp add: FetchCryptoPrices_run_def)
    from k have "k \<in> set (running (init_state ?n))" by (simp add: init_state_def)
    then have "k \<in> set (running (init_state ?n)) \<or> ?e \<in> set (errors (init_state ?n)) \<or>
        returned (init_state ?n) = Some ([], Some ?e)" by simp
    from delivered_run[OF fetch_inv_init mn run mk k this]
    have "k \<in> set (running s) \<or> ?e \<in> set (errors s) \<or> returned s = Some ([], Some ?e)" .
    ultimately show ?thesis by simp
  qed
  have res: "ps = [] \<and> err \<noteq> None"
    if r: "FetchCryptoPrices w c cryptoIDs sched = Some (ps, err)" for sched ps err
  proof -
    from r obtain s where s: "FetchCryptoPrices_run w c cryptoIDs sched = Some s"
      and rs: "returned s = Some (ps, err)"
      by (auto simp: FetchCryptoPrices_Some)
    from FetchCryptoPrices_run_inv[OF s m] have inv: "fetch_inv m ?n s" .
    from no_success_with_error_unit[OF inv k mk] rs have "err \<noteq> None" by auto
    then obtain e where "err = Some e" by auto
    with result_error[OF inv] rs show ?thesis by simp
  qed
  from schedule_error_first[OF k u]
  have sch: "FetchCryptoPrices w c cryptoIDs [Finish k, RecvError] = Some ([], Some ?e)" .
  have only: "r = ([], Some ?e)"
    if others: "\<forall>j<?n. j \<noteq> k \<longrightarrow> (\<exists>p. units w c cryptoIDs j = Returned (ToResults p))"
      and r: "FetchCryptoPrices w c cryptoIDs sched = Some r" for sched r
  proof -
    obtain ps err where pe: "r = (ps, err)" by (cases r)
    from r pe obtain s where s: "FetchCryptoPrices_run w c cryptoIDs sched = Some s"
      and rs: "returned s = Some (ps, err)"
      by (auto simp: FetchCryptoPrices_Some)
    from FetchCryptoPrices_run_inv[OF s m] have inv: "fetch_inv m ?n s" .
    from r pe have "FetchCryptoPrices w c cryptoIDs sched = Some (ps, err)" by simp
    from res[OF this] have ps: "ps = []" and "err \<noteq> None" by simp_all
    then obtain e where err: "err = Some e" by auto
    from result_error[OF inv] rs err obtain j where j: "j < ?n" and mj: "m j = ToErrors e"
      by blast
    have "j = k"
    proof (rule ccontr)
      assume "j \<noteq> k"
      with others j obtain p where "units w c cryptoIDs j = Returned (ToResults p)" by blast
      with m mj show False by simp
    qed
    with mj mk have "e = ?e" by simp
    with pe ps err show ?thesis by simp
  qed
  from body u reach res sch only
  show "fetch_body w c k (cryptoIDs ! k)
       = Panicked (''API returned status code: '' @ string_of_int (StatusCode resp)) \<and>
     units w c cryptoIDs k = Returned (ToErrors ?e) \<and>
     (\<forall>sched s. FetchCryptoPrices_run w c cryptoIDs sched = Some s \<longrightarrow>
        crashed s = None \<and>
        (k \<in> set (running s) \<or> ?e \<in> set (errors s) \<or> returned s = Some ([], Some ?e))) \<and>
     (\<forall>sched ps err. FetchCryptoPrices w c cryptoIDs sched = Some (ps, err) \<longrightarrow>
        ps = [] \<and> err \<noteq> None) \<and>
     FetchCryptoPrices w c cryptoIDs [Finish k, RecvError] = Some ([], Some ?e) \<and>
     ((\<forall>j<?n. j \<noteq> k \<longrightarrow> (\<exists>p. units w c cryptoIDs j = Returned (ToResults p))) \<longrightarrow>
      (\<forall>sched r. FetchCryptoPrices w c cryptoIDs sched = Some r \<longrightarrow> r = ([], Some ?e)))"
    by blast
qed

theorem non_2xx_status_becomes_error_witness:
  "units (mixed_server 404) test_client [''bitcoin'', ''dogecoin''] 1
     = Returned (ToErrors (ErrorNew ''panic occurred: API returned status code: 404''))
   \<and> FetchCryptoPrices (mixed_server 404) test_client [''bitcoin'', ''dogecoin'']
       [Finish 1, RecvError]
     = Some ([], Some (ErrorNew ''panic occurred: API returned status code: 404''))
   \<and> FetchCryptoPrices (mixed_server 404) test_client [''bitcoin'', ''dogecoin'']
       [Finish 0, RecvResult, Finish 1, RecvError]
     = Some ([], Some (ErrorNew ''panic occurred: API returned status code: 404''))
   \<and> \<not> (\<exists>ps sched. FetchCryptoPrices (mixed_server 404) test_client [''bitcoin'', ''dogecoin''] sched
         = Some (ps, None))
   \<and> \<not> (\<exists>sched r. FetchCryptoPrices (mixed_server 404) test_client [''bitcoin'', ''dogecoin''] sched
         = Some r \<and> r \<noteq> ([], Some (ErrorNew ''panic occurred: API returned status code: 404'')))"
proof -
  let ?ids = "[''bitcoin'', ''dogecoin'']"
  let ?w = "mixed_server 404"
  let ?resp = "\<lparr>StatusCode = 404, Body = success_body\<rparr>"
  have h: "1 < length ?ids \<and> http_get ?w 1 (price_url test_client (?ids ! 1)) = Inr ?resp \<and>
      (StatusCode ?resp < 200 \<or> 299 < StatusCode ?resp)"
    by (simp add: mixed_server_def)
  have msg_eq: "''panic occurred: API returned status code: '' @ string_of_int (StatusCode ?resp)
      = ''panic occurred: API returned status code: 404''"
    by code_simp
  note t = non_2xx_status_becomes_error[of 1 ?ids ?w test_client ?resp, unfolded msg_eq]
  from t h have a: "units ?w test_client ?ids 1
      = Returned (ToErrors (ErrorNew ''panic occurred: API returned status code: 404''))"
    by blast
  from t h have b: "FetchCryptoPrices ?w test_client ?ids [Finish 1, RecvError]
      = Some ([], Some (ErrorNew ''panic occurred: API returned status code: 404''))"
    by blast
  have c: "FetchCryptoPrices ?w test_client ?ids [Finish 0, RecvResult, Finish 1, RecvError]
      = Some ([], Some (ErrorNew ''panic occurred: API returned status code: 404''))"
    by code_simp
  from t h have "\<forall>sched ps err. FetchCryptoPrices ?w test_client ?ids sched = Some (ps, err) \<longrightarrow>
        ps = [] \<and> err \<noteq> None"
    by blast
  then have d: "\<not> (\<exists>ps sched. FetchCryptoPrices ?w test_client ?ids sched = Some (ps, None))"
    by blast
  have u0: "units ?w test_client ?ids 0
      = Returned (ToResults \<lparr>ID = ''bitcoin'', Symbol = [], Name = [],
          CurrentPrice = Finite 50000, LastUpdated = ''2026-10-31T13:05:09Z''\<rparr>)"
    by code_simp
  have others: "\<forall>j<length ?ids. j \<noteq> 1 \<longrightarrow> (\<exists>p. units ?w test_client ?ids j = Returned (ToResults p))"
  proof (intro allI impI)
    fix j :: nat assume "j < length ?ids" and "j \<noteq> 1"
    then have "j = 0" by simp
    with u0 show "\<exists>p. units ?w test_client ?ids j = Returned (ToResults p)" by blast
  qed
  from t h others have "\<forall>sched r. FetchCryptoPrices ?w test_client ?ids sched = Some r \<longrightarrow>
      r = ([], Some (ErrorNew ''panic occurred: API returned status code: 404''))"
    by blast
  then have e: "\<not> (\<exists>sched r. FetchCryptoPrices ?w test_client ?ids sched = Some r \<and>
      r \<noteq> ([], Some (ErrorNew ''panic occurred: API returned status code: 404'')))"
    by blast
  from a b c d e show ?thesis by blast
qed

lemma single_result:
  assumes u: "units w c [cryptoID] 0 = Returned x"
    and r: "FetchCryptoPrices w c [cryptoID] sched = Some r"
  shows "r = (case x of ToResults p \<Rightarrow> ([p], None) | ToErrors e \<Rightarrow> ([], Some e))"
proof -
  from units_msgs obtain m where m: "\<forall>j. units w c [cryptoID] j = Returned (m j)" by blast
  with u have m0: "m 0 = x" by simp
  from r obtain s where s: "FetchCryptoPrices_run w c [cryptoID] sched = Some s"
    and rs: "returned s = Some r"
    by (auto simp: FetchCryptoPrices_Some)
  from FetchCryptoPrices_run_inv[OF s m] have inv: "fetch_inv m 1 s" by simp
  obtain ps err where pe: "r = (ps, err)" by (cases r)
  show ?thesis
  proof (cases err)
    case None
    with result_success[OF inv] rs pe have l: "length ps = 1"
      and eq: "image_mset ToResults (mset ps) = image_mset m (mset [0..<1])" by simp_all
    from l obtain p where p: "ps = [p]" by (cases ps) auto
    with eq m0 have "x = ToResults p" by simp
    with p pe None show ?thesis by simp
  next
    case (Some e)
    with result_error[OF inv] rs pe have "ps = []" and "\<exists>k<1. m k = ToErrors e" by simp_all
    with m0 have "x = ToErrors e" by simp
    with \<open>ps = []\<close> pe Some show ?thesis by simp
  qed
qed






lemma units_missing:
  assumes "price_missing w c cryptoIDs k"
  shows "units w c cryptoIDs k = Returned (ToResults
     \<lparr>ID = cryptoIDs ! k, Symbol = [], Name = [], CurrentPrice = Finite 0,
      LastUpdated = format_rfc3339 (now w k)\<rparr>)"
  using assms
  by (auto simp: price_missing_def units_def goroutine_def fetch_body_def StatusOK_def
      lookup_usd_def f64_zero_def split: sum.splits option.splits)

lemma sent_record_step:
  assumes inv: "fetch_inv m n s" and g: "\<forall>k<n. g k = Returned (m k)"
    and st: "step g n s a = Some s'" and mk: "m k = ToResults p" and kn: "k < n"
    and J: "k \<in> set (running s) \<or> p \<in> set (results s) \<or> p \<in> set (prices s)"
  shows "k \<in> set (running s') \<or> p \<in> set (results s') \<or> p \<in> set (prices s')"
proof -
  from inv have cr: "crashed s = None" by (simp add: fetch_inv_def)
  show ?thesis
  proof (cases a)
    case (Finish j)
    with st cr have jin: "j \<in> set (running s)" by (auto simp: step_def split: if_splits)
    with inv have "j < n" by (auto simp: fetch_inv_def)
    with g have gj: "g j = Returned (m j)" by simp
    from st cr Finish jin gj obtain s1 where s1: "send n (m j) s = Some s1"
      and s': "s' = s1\<lparr>running := remove1 j (running s)\<rparr>"
      by (auto simp: step_def split: option.splits)
    from s1 have keep: "set (results s) \<subseteq> set (results s1)" "prices s1 = prices s"
      by (cases "m j"; auto split: if_splits)+
    show ?thesis
    proof (cases "j = k")
      case True
      with s1 mk have "p \<in> set (results s1)" by (auto split: if_splits)
      with s' show ?thesis by simp
    next
      case False
      then have "k \<in> set (running s) \<Longrightarrow> k \<in> set (remove1 j (running s))" by simp
      with J keep s' show ?thesis by auto
    qed
  next
    case RecvResult
    with st cr J show ?thesis
      by (auto simp: step_def split: if_splits list.splits)
  next
    case RecvError
    with st cr J show ?thesis
      by (auto simp: step_def split: if_splits list.splits)
  next
    case Return
    with st cr J show ?thesis
      by (auto simp: step_def split: if_splits)
  qed
qed

lemma sent_record_run:
  assumes "fetch_inv m n s" "\<forall>k<n. g k = Returned (m k)" "run g n s as = Some s'"
    "m k = ToResults p" "k < n"
    "k \<in> set (running s) \<or> p \<in> set (results s) \<or> p \<in> set (prices s)"
  shows "k \<in> set (running s') \<or> p \<in> set (results s') \<or> p \<in> set (prices s')"
  using assms
proof (induction as arbitrary: s)
  case Nil
  then show ?case by simp
next
  case (Cons a as)
  from Cons.prems(3) obtain s1 where s1: "step g n s a = Some s1" and r: "run g n s1 as = Some s'"
    by (auto split: option.splits)
  from step_preserves_inv[OF Cons.prems(1,2) s1] have i1: "fetch_inv m n s1" .
  from sent_record_step[OF Cons.prems(1,2) s1 Cons.prems(4,5,6)]
  have "k \<in> set (running s1) \<or> p \<in> set (results s1) \<or> p \<in> set (prices s1)" .
  from Cons.IH[OF i1 Cons.prems(2) r Cons.prems(4,5) this] show ?case .
qed

text \<open>
  Claim C9, as the specification states it, has \<^verbatim>\<open>FetchCryptoPrices\<close> deliver a record
  with price 0 and report no error for every identifier whose answer decodes and holds no
  price for it. The call returns either all records or the first error (\<^verbatim>\<open>return nil, err\<close>):
  here the first identifier is such a one and its unit of work sends the record with price
  0, the second identifier gets the status 500, and the call returns nil and an error
  under every schedule, also after it has taken the record from the channel.
\<close>

theorem record_dropped_counterexample:
  "price_missing (mixed_server 500) test_client [''ethereum'', ''bitcoin''] 0
   \<and> units (mixed_server 500) test_client [''ethereum'', ''bitcoin''] 0
     = Returned (ToResults \<lparr>ID = ''ethereum'', Symbol = [], Name = [], CurrentPrice = Finite 0,
         LastUpdated = ''2026-10-31T13:05:09Z''\<rparr>)
   \<and> FetchCryptoPrices (mixed_server 500) test_client [''ethereum'', ''bitcoin'']
       [Finish 0, Finish 1, RecvResult, RecvError]
     = Some ([], Some (ErrorNew ''panic occurred: API returned status code: 500''))
   \<and> \<not> (\<exists>sched ps. FetchCryptoPrices (mixed_server 500) test_client [''ethereum'', ''bitcoin'']
          sched = Some (ps, None))"
proof -
  let ?w = "mixed_server 500"
  let ?ids = "[''ethereum'', ''bitcoin'']"
  let ?e = "ErrorNew ''panic occurred: API returned status code: 500''"
  have a: "price_missing ?w test_client ?ids 0" by code_simp
  have b: "units ?w test_client ?ids 0
      = Returned (ToResults \<lparr>ID = ''ethereum'', Symbol = [], Name = [], CurrentPrice = Finite 0,
         LastUpdated = ''2026-10-31T13:05:09Z''\<rparr>)"
    by code_simp
  have c: "FetchCryptoPrices ?w test_client ?ids [Finish 0, Finish 1, RecvResult, RecvError]
      = Some ([], Some ?e)"
    by code_simp
  have u1: "units ?w test_client ?ids 1 = Returned (ToErrors ?e)" by code_simp
  have k: "1 < length ?ids" by simp
  have d: "\<not> (\<exists>sched ps. FetchCryptoPrices ?w test_client ?ids sched = Some (ps, None))"
    using failing_unit_no_success[OF k u1] by blast
  from a b c d show ?thesis by blast
qed

text \<open>
  Claim C9, amended: when the answer to the \<open>k\<close>-th identifier has status 200 and a body
  that decodes, and the decoded map does not hold the identifier as a key, or its inner map
  has no key \<^verbatim>\<open>usd\<close>, the unit of work sends a price record for the identifier with
  CurrentPrice 0, and no error; under every schedule the record, once sent, waits in the
  channel or is among the collected prices, and it is in every slice the call returns
  without error. When no unit of work sends an error, the call returns, under every
  schedule, no error and a slice that holds this record; so it does for a single
  identifier, and when all identifiers are such, with only prices 0. (When another unit of
  work sends an error, the call returns nil and an error, and the record is dropped.)
\<close>

theorem missing_price_is_zero:
  "(k < length cryptoIDs \<and> price_missing w c cryptoIDs k \<longrightarrow>
      units w c cryptoIDs k = Returned (ToResults
        \<lparr>ID = cryptoIDs ! k, Symbol = [], Name = [], CurrentPrice = Finite 0,
         LastUpdated = format_rfc3339 (now w k)\<rparr>) \<and>
      (\<forall>sched s. FetchCryptoPrices_run w c cryptoIDs sched = Some s \<longrightarrow>
         k \<in> set (running s) \<or>
         \<lparr>ID = cryptoIDs ! k, Symbol = [], Name = [], CurrentPrice = Finite 0,
          LastUpdated = format_rfc3339 (now w k)\<rparr> \<in> set (results s) \<or>
         \<lparr>ID = cryptoIDs ! k, Symbol = [], Name = [], CurrentPrice = Finite 0,
          LastUpdated = format_rfc3339 (now w k)\<rparr> \<in> set (prices s)) \<and>
      (\<forall>sched ps. FetchCryptoPrices w c cryptoIDs sched = Some (ps, None) \<longrightarrow>
         \<lparr>ID = cryptoIDs ! k, Symbol = [], Name = [], CurrentPrice = Finite 0,
          LastUpdated = format_rfc3339 (now w k)\<rparr> \<in> set ps) \<and>
      (length cryptoIDs = 1 \<longrightarrow>
         (\<forall>sched r. FetchCryptoPrices w c cryptoIDs sched = Some r \<longrightarrow>
            r = ([\<lparr>ID = cryptoIDs ! k, Symbol = [], Name = [], CurrentPrice = Finite 0,
                   LastUpdated = format_rfc3339 (now w k)\<rparr>], None))) \<and>
      ((\<forall>j<length cryptoIDs. \<exists>p. units w c cryptoIDs j = Returned (ToResults p)) \<longrightarrow>
         (\<forall>sched ps err. FetchCryptoPrices w c cryptoIDs sched = Some (ps, err) \<longrightarrow>
            err = None \<and> length ps = length cryptoIDs \<and>
            \<lparr>ID = cryptoIDs ! k, Symbol = [], Name = [], CurrentPrice = Finite 0,
             LastUpdated = format_rfc3339 (now w k)\<rparr> \<in> set ps)))
   \<and> ((\<forall>k<length cryptoIDs. price_missing w c cryptoIDs k) \<longrightarrow>
      (\<forall>sched ps err. FetchCryptoPrices w c cryptoIDs sched = Some (ps, err) \<longrightarrow>
         err = None \<and> length ps = length cryptoIDs \<and>
         (\<forall>p\<in>set ps. CurrentPrice p = Finite 0)))"
proof (intro conjI impI)
  let ?n = "length cryptoIDs"
  let ?z = "\<lambda>k. \<lparr>ID = cryptoIDs ! k, Symbol = [], Name = [], CurrentPrice = Finite 0,
         LastUpdated = format_rfc3339 (now w k)\<rparr>"
  from units_msgs obtain m where m: "\<forall>j. units w c cryptoIDs j = Returned (m j)" by blast
  then have mn: "\<forall>j<?n. units w c cryptoIDs j = Returned (m j)" by simp
  {
    assume "k < ?n \<and> price_missing w c cryptoIDs k"
    then have k: "k < ?n" and pm: "price_missing w c cryptoIDs k" by simp_all
    from units_missing[OF pm] show u: "units w c cryptoIDs k = Returned (ToResults (?z k))" .
    with m have mk: "m k = ToResults (?z k)" by simp
    have reach: "k \<in> set (running s) \<or> ?z k \<in> set (results s) \<or> ?z k \<in> set (prices s)"
      if s: "FetchCryptoPrices_run w c cryptoIDs sched = Some s" for sched s
    proof -
      from s have run: "run (units w c cryptoIDs) ?n (init_state ?n) sched = Some s"
        by (simp add: FetchCryptoPrices_run_def)
      from k have "k \<in> set (running (init_state ?n))" by (simp add: init_state_def)
      then have "k \<in> set (running (init_state ?n)) \<or> ?z k \<in> set (results (init_state ?n)) \<or>
          ?z k \<in> set (prices (init_state ?n))" by simp
      from sent_record_run[OF fetch_inv_init mn run mk k this] show ?thesis .
    qed
    then show "\<forall>sched s. FetchCryptoPrices_run w c cryptoIDs sched = Some s \<longrightarrow>
         k \<in> set (running s) \<or> ?z k \<in> set (results s) \<or> ?z k \<in> set (prices s)"
      by blast
    show inps: "\<forall>sched ps. FetchCryptoPrices w c cryptoIDs sched = Some (ps, None) \<longrightarrow> ?z k \<in> set ps"
    proof (intro allI impI)
      fix sched ps assume r: "FetchCryptoPrices w c cryptoIDs sched = Some (ps, None)"
      then obtain s where s: "FetchCryptoPrices_run w c cryptoIDs sched = Some s"
        and rs: "returned s = Some (ps, None)"
        by (auto simp: FetchCryptoPrices_Some)
      from FetchCryptoPrices_run_inv[OF s m] have inv: "fetch_inv m ?n s" .
      from result_success[OF inv rs]
      have "image_mset ToResults (mset ps) = image_mset m (mset [0..<?n])" by simp
      moreover from k have "m k \<in># image_mset m (mset [0..<?n])" by simp
      ultimately have "ToResults (?z k) \<in># image_mset ToResults (mset ps)" using mk by simp
      then show "?z k \<in> set ps" by auto
    qed
    show "\<forall>sched r. FetchCryptoPrices w c cryptoIDs sched = Some r \<longrightarrow> r = ([?z k], None)"
      if l: "?n = 1"
    proof (intro allI impI)
      fix sched r assume r: "FetchCryptoPrices w c cryptoIDs sched = Some r"
      from l obtain x where ids: "cryptoIDs = [x]" by (cases cryptoIDs) auto
      with k have k0: "k = 0" by simp
      from u ids k0 have "units w c [x] 0 = Returned (ToResults (?z k))" by simp
      from single_result[OF this] r ids show "r = ([?z k], None)" by simp
    qed
    show "\<forall>sched ps err. FetchCryptoPrices w c cryptoIDs sched = Some (ps, err) \<longrightarrow>
        err = None \<and> length ps = ?n \<and> ?z k \<in> set ps"
      if others: "\<forall>j<?n. \<exists>p. units w c cryptoIDs j = Returned (ToResults p)"
    proof (intro allI impI)
      fix sched ps err assume r: "FetchCryptoPrices w c cryptoIDs sched = Some (ps, err)"
      then obtain s where s: "FetchCryptoPrices_run w c cryptoIDs sched = Some s"
        and rs: "returned s = Some (ps, err)"
        by (auto simp: FetchCryptoPrices_Some)
      from FetchCryptoPrices_run_inv[OF s m] have inv: "fetch_inv m ?n s" .
      have en: "err = None"
      proof (cases err)
        case (Some e)
        with result_error[OF inv] rs obtain j where j: "j < ?n" and mj: "m j = ToErrors e"
          by blast
        from others j obtain p where "units w c cryptoIDs j = Returned (ToResults p)" by blast
        with m mj show ?thesis by simp
      qed simp
      with result_success[OF inv] rs have l: "length ps = ?n" by simp
      from r en inps have "?z k \<in> set ps" by blast
      with en l show "err = None \<and> length ps = ?n \<and> ?z k \<in> set ps" by blast
    qed
  }
  {
    assume all: "\<forall>k<?n. price_missing w c cryptoIDs k"
    have mz: "m j = ToResults (?z j)" if "j < ?n" for j
      using units_missing[of w c cryptoIDs j] all m that by simp
    show "\<forall>sched ps err. FetchCryptoPrices w c cryptoIDs sched = Some (ps, err) \<longrightarrow>
         err = None \<and> length ps = ?n \<and> (\<forall>p\<in>set ps. CurrentPrice p = Finite 0)"
    proof (intro allI impI)
      fix sched ps err assume r: "FetchCryptoPrices w c cryptoIDs sched = Some (ps, err)"
      then obtain s where s: "FetchCryptoPrices_run w c cryptoIDs sched = Some s"
        and rs: "returned s = Some (ps, err)"
        by (auto simp: FetchCryptoPrices_Some)
      from FetchCryptoPrices_run_inv[OF s m] have inv: "fetch_inv m ?n s" .
      have en: "err = None"
      proof (cases err)
        case (Some e)
        with result_error[OF inv] rs obtain j where "j < ?n" "m j = ToErrors e" by blast
        with mz[of j] show ?thesis by simp
      qed simp
      with result_success[OF inv] rs have l: "length ps = ?n"
        and eq: "image_mset ToResults (mset ps) = image_mset m (mset [0..<?n])" by simp_all
      have "CurrentPrice p = Finite 0" if "p \<in> set ps" for p
      proof -
        from that have "ToResults p \<in># image_mset ToResults (mset ps)" by simp
        with eq have "ToResults p \<in># image_mset m (mset [0..<?n])" by simp
        then obtain j where "j < ?n" "m j = ToResults p" by auto
        with mz[of j] show ?thesis by auto
      qed
      with en l show "err = None \<and> length ps = ?n \<and> (\<forall>p\<in>set ps. CurrentPrice p = Finite 0)"
        by blast
    qed
  }
qed

theorem missing_price_is_zero_witness:
  "price_missing (test_server 200 success_body) test_client [''ethereum''] 0
   \<and> units (test_server 200 success_body) test_client [''ethereum''] 0
     = Returned (ToResults \<lparr>ID = ''ethereum'', Symbol = [], Name = [], CurrentPrice = Finite 0,
         LastUpdated = ''2026-10-31T13:05:09Z''\<rparr>)
   \<and> FetchCryptoPrices (test_server 200 success_body) test_client [''ethereum'']
       [Finish 0, RecvResult, Return]
     = Some ([\<lparr>ID = ''ethereum'', Symbol = [], Name = [], CurrentPrice = Finite 0,
         LastUpdated = ''2026-10-31T13:05:09Z''\<rparr>], None)
   \<and> price_missing (test_server 200 ''{}'') test_client [''bitcoin'', ''ethereum''] 1
   \<and> FetchCryptoPrices (test_server 200 ''{}'') test_client [''bitcoin'', ''ethereum'']
       [Finish 1, Finish 0, RecvResult, RecvResult, Return]
     = Some ([\<lparr>ID = ''ethereum'', Symbol = [], Name = [], CurrentPrice = Finite 0,
         LastUpdated = ''2026-10-31T13:05:09Z''\<rparr>,
        \<lparr>ID = ''bitcoin'', Symbol = [], Name = [], CurrentPrice = Finite 0,
         LastUpdated = ''2026-10-31T13:05:09Z''\<rparr>], None)
   \<and> \<not> (\<exists>sched ps e. FetchCryptoPrices (test_server 200 ''{}'') test_client
         [''bitcoin'', ''ethereum''] sched = Some (ps, Some e))
   \<and> FetchCryptoPrices (mixed_server 200) test_client [''ethereum'', ''bitcoin'']
       [Finish 1, Finish 0, RecvResult, RecvResult, Return]
     = Some ([\<lparr>ID = ''bitcoin'', Symbol = [], Name = [], CurrentPrice = Finite 50000,
         LastUpdated = ''2026-10-31T13:05:09Z''\<rparr>,
        \<lparr>ID = ''ethereum'', Symbol = [], Name = [], CurrentPrice = Finite 0,
         LastUpdated = ''2026-10-31T13:05:09Z''\<rparr>], None)
   \<and> \<not> (\<exists>sched ps e. FetchCryptoPrices (mixed_server 200) test_client
         [''ethereum'', ''bitcoin''] sched = Some (ps, Some e))"
proof -
  let ?w = "test_server 200 success_body"
  let ?v = "test_server 200 ''{}''"
  let ?z = "\<lparr>ID = ''ethereum'', Symbol = [], Name = [], CurrentPrice = Finite 0,
         LastUpdated = ''2026-10-31T13:05:09Z''\<rparr>"
  have f: "format_rfc3339 (now ?w 0) = ''2026-10-31T13:05:09Z''" by code_simp
  have pm: "price_missing ?w test_client [''ethereum''] 0" by code_simp
  note t = missing_price_is_zero[of 0 "[''ethereum'']" ?w test_client, unfolded f]
  from t pm have a: "units ?w test_client [''ethereum''] 0 = Returned (ToResults ?z)"
    by simp
  have b: "FetchCryptoPrices ?w test_client [''ethereum''] [Finish 0, RecvResult, Return]
      = Some ([?z], None)"
    by code_simp
  have pv: "\<forall>k<length [''bitcoin'', ''ethereum'']. price_missing ?v test_client [''bitcoin'', ''ethereum''] k"
  proof (intro allI impI)
    fix k :: nat assume "k < length [''bitcoin'', ''ethereum'']"
    then have "k = 0 \<or> k = 1" by auto
    moreover have "price_missing ?v test_client [''bitcoin'', ''ethereum''] 0" by code_simp
    moreover have "price_missing ?v test_client [''bitcoin'', ''ethereum''] 1" by code_simp
    ultimately show "price_missing ?v test_client [''bitcoin'', ''ethereum''] k" by blast
  qed
  then have p1: "price_missing ?v test_client [''bitcoin'', ''ethereum''] 1" by simp
  have c: "FetchCryptoPrices ?v test_client [''bitcoin'', ''ethereum'']
       [Finish 1, Finish 0, RecvResult, RecvResult, Return]
     = Some ([?z, \<lparr>ID = ''bitcoin'', Symbol = [], Name = [], CurrentPrice = Finite 0,
         LastUpdated = ''2026-10-31T13:05:09Z''\<rparr>], None)"
    by code_simp
  from missing_price_is_zero[of 0 "[''bitcoin'', ''ethereum'']" ?v test_client] pv
  have "\<forall>sched ps err. FetchCryptoPrices ?v test_client [''bitcoin'', ''ethereum''] sched
      = Some (ps, err) \<longrightarrow> err = None"
    by blast
  then have d: "\<not> (\<exists>sched ps e. FetchCryptoPrices ?v test_client [''bitcoin'', ''ethereum''] sched
      = Some (ps, Some e))"
    by fastforce
  let ?x = "mixed_server 200"
  let ?ids = "[''ethereum'', ''bitcoin'']"
  let ?b = "\<lparr>ID = ''bitcoin'', Symbol = [], Name = [], CurrentPrice = Finite 50000,
         LastUpdated = ''2026-10-31T13:05:09Z''\<rparr>"
  have px: "0 < length ?ids \<and> price_missing ?x test_client ?ids 0" by code_simp
  have u0: "units ?x test_client ?ids 0 = Returned (ToResults ?z)" by code_simp
  have u1: "units ?x test_client ?ids 1 = Returned (ToResults ?b)" by code_simp
  have others: "\<forall>j<length ?ids. \<exists>p. units ?x test_client ?ids j = Returned (ToResults p)"
  proof (intro allI impI)
    fix j :: nat assume "j < length ?ids"
    then have "j = 0 \<or> j = 1" by auto
    with u0 u1 show "\<exists>p. units ?x test_client ?ids j = Returned (ToResults p)" by blast
  qed
  from missing_price_is_zero[of 0 ?ids ?x test_client] px others
  have "\<forall>sched ps err. FetchCryptoPrices ?x test_client ?ids sched = Some (ps, err) \<longrightarrow> err = None"
    by blast
  then have e: "\<not> (\<exists>sched ps e. FetchCryptoPrices ?x test_client ?ids sched = Some (ps, Some e))"
    by fastforce
  have g: "FetchCryptoPrices ?x test_client ?ids [Finish 1, Finish 0, RecvResult, RecvResult, Return]
      = Some ([?b, ?z], None)"
    by code_simp
  from pm a b p1 c d g e show ?thesis by blast
qed

text \<open>
  Claim C10: every price record that a unit of work of \<^verbatim>\<open>FetchCryptoPrices\<close> sends, and
  every record in a slice the call returns, has empty Symbol and Name (its ID is the
  identifier asked for and its LastUpdated the text of the clock reading), and therefore
  fails \<^verbatim>\<open>Validate\<close>.
\<close>

theorem fetched_records_fail_Validate:
  "(\<forall>k p. units w c cryptoIDs k = Returned (ToResults p) \<longrightarrow>
      ID p = cryptoIDs ! k \<and> Symbol p = [] \<and> Name p = [] \<and>
      LastUpdated p = format_rfc3339 (now w k) \<and> Validate p \<noteq> None)
   \<and> (\<forall>sched ps err p. FetchCryptoPrices w c cryptoIDs sched = Some (ps, err) \<and> p \<in> set ps \<longrightarrow>
      Symbol p = [] \<and> Name p = [] \<and> Validate p \<noteq> None \<and>
      (\<exists>k<length cryptoIDs. ID p = cryptoIDs ! k \<and> LastUpdated p = format_rfc3339 (now w k)))"
proof -
  let ?n = "length cryptoIDs"
  have unit: "ID p = cryptoIDs ! k \<and> Symbol p = [] \<and> Name p = [] \<and>
      LastUpdated p = format_rfc3339 (now w k) \<and> Validate p \<noteq> None"
    if u: "units w c cryptoIDs k = Returned (ToResults p)" for k p
    using units_record[OF u] Validate_no_symbol[of p] by simp
  have call: "Symbol p = [] \<and> Name p = [] \<and> Validate p \<noteq> None \<and>
      (\<exists>k<?n. ID p = cryptoIDs ! k \<and> LastUpdated p = format_rfc3339 (now w k))"
    if r: "FetchCryptoPrices w c cryptoIDs sched = Some (ps, err)" and p: "p \<in> set ps"
    for sched ps err p
  proof -
    from units_msgs obtain m where m: "\<forall>j. units w c cryptoIDs j = Returned (m j)" by blast
    from r obtain s where s: "FetchCryptoPrices_run w c cryptoIDs sched = Some s"
      and rs: "returned s = Some (ps, err)"
      by (auto simp: FetchCryptoPrices_Some)
    from FetchCryptoPrices_run_inv[OF s m] have inv: "fetch_inv m ?n s" .
    have "err = None"
    proof (cases err)
      case (Some e)
      with result_error[OF inv] rs have "ps = []" by simp
      with p show ?thesis by simp
    qed simp
    with result_success[OF inv] rs
    have "image_mset ToResults (mset ps) = image_mset m (mset [0..<?n])" by simp
    moreover from p have "ToResults p \<in># image_mset ToResults (mset ps)" by simp
    ultimately have "ToResults p \<in># image_mset m (mset [0..<?n])" by simp
    then obtain k where k: "k < ?n" and "m k = ToResults p" by auto
    with m have u: "units w c cryptoIDs k = Returned (ToResults p)" by simp
    from unit[OF u] k show ?thesis by blast
  qed
  from unit call show ?thesis by blast
qed

theorem fetched_records_fail_Validate_witness:
  "FetchCryptoPrices (test_server 200 success_body) test_client [''bitcoin'']
      [Finish 0, RecvResult, Return]
    = Some ([\<lparr>ID = ''bitcoin'', Symbol = [], Name = [], CurrentPrice = Finite 50000,
              LastUpdated = ''2026-10-31T13:05:09Z''\<rparr>], None)
   \<and> Validate \<lparr>ID = ''bitcoin'', Symbol = [], Name = [], CurrentPrice = Finite 50000,
              LastUpdated = ''2026-10-31T13:05:09Z''\<rparr> \<noteq> None
   \<and> units (test_server 200 ''{}'') test_client [''dogecoin''] 0
    = Returned (ToResults \<lparr>ID = ''dogecoin'', Symbol = [], Name = [], CurrentPrice = Finite 0,
              LastUpdated = ''2026-10-31T13:05:09Z''\<rparr>)
   \<and> Validate \<lparr>ID = ''dogecoin'', Symbol = [], Name = [], CurrentPrice = Finite 0,
              LastUpdated = ''2026-10-31T13:05:09Z''\<rparr>
    = Some (ErrorNew ''crypto symbol cannot be empty'')"
proof -
  let ?w = "test_server 200 success_body"
  let ?p = "\<lparr>ID = ''bitcoin'', Symbol = [], Name = [], CurrentPrice = Finite 50000,
              LastUpdated = ''2026-10-31T13:05:09Z''\<rparr>"
  have a: "FetchCryptoPrices ?w test_client [''bitcoin''] [Finish 0, RecvResult, Return]
      = Some ([?p], None)"
    by code_simp
  then have "FetchCryptoPrices ?w test_client [''bitcoin''] [Finish 0, RecvResult, Return]
      = Some ([?p], None) \<and> ?p \<in> set [?p]"
    by simp
  with fetched_records_fail_Validate[of ?w test_client "[''bitcoin'']"]
  have b: "Validate ?p \<noteq> None" by blast
  let ?q = "\<lparr>ID = ''dogecoin'', Symbol = [], Name = [], CurrentPrice = Finite 0,
              LastUpdated = ''2026-10-31T13:05:09Z''\<rparr>"
  have u: "units (test_server 200 ''{}'') test_client [''dogecoin''] 0 = Returned (ToResults ?q)"
    by code_simp
  with fetched_records_fail_Validate[of "test_server 200 ''{}''" test_client "[''dogecoin'']"]
  have "Validate ?q \<noteq> None" by blast
  then have c: "Validate ?q = Some (ErrorNew ''crypto symbol cannot be empty'')"
    by (simp add: Validate_def)
  from a b u c show ?thesis by blast
qed

section \<open>GetBySymbol\<close>

lemma GetBySymbol_loop_none:
  "\<forall>c \<in> set ps. Symbol c \<noteq> s \<Longrightarrow> GetBySymbol_loop ps s = (CryptoPrice_zero, False)"
  by (induction ps) auto

lemma GetBySymbol_loop_first:
  "i < length ps \<Longrightarrow> Symbol (ps ! i) = s \<Longrightarrow> \<forall>j<i. Symbol (ps ! j) \<noteq> s \<Longrightarrow>
   GetBySymbol_loop ps s = (ps ! i, True)"
proof (induction ps arbitrary: i)
  case Nil
  then show ?case by simp
next
  case (Cons a ps)
  show ?case
  proof (cases i)
    case 0
    with Cons.prems show ?thesis by simp
  next
    case (Suc k)
    with Cons.prems have "Symbol a \<noteq> s" by auto
    moreover have "GetBySymbol_loop ps s = (ps ! k, True)"
    proof (rule Cons.IH)
      show "k < length ps" using Cons.prems(1) Suc by simp
      show "Symbol (ps ! k) = s" using Cons.prems(2) Suc by simp
      show "\<forall>j<k. Symbol (ps ! j) \<noteq> s"
      proof (intro allI impI)
        fix j assume "j < k"
        then have "Suc j < i" using Suc by simp
        with Cons.prems(3) have "Symbol ((a # ps) ! Suc j) \<noteq> s" by blast
        then show "Symbol (ps ! j) \<noteq> s" by simp
      qed
    qed
    ultimately show ?thesis using Suc by simp
  qed
qed

lemma GetBySymbol_loop_found:
  "snd (GetBySymbol_loop ps s) \<longleftrightarrow> (\<exists>c \<in> set ps. Symbol c = s)"
  by (induction ps) auto

text \<open>
  Claim C7: for every batch and every symbol, \<^verbatim>\<open>GetBySymbol\<close> returns the first entry, in
  the order of the batch, whose Symbol equals the argument, together with \<open>True\<close>; the
  comparison is the equality of strings, so it distinguishes upper and lower case. If no
  entry matches, it returns the zero value and \<open>False\<close>. Duplicates are permitted, and of
  several matching entries the one at the least index is returned.
\<close>

theorem GetBySymbol_first_match:
  "((\<forall>c\<in>set (Prices b). Symbol c \<noteq> symbol) \<longrightarrow>
      GetBySymbol b symbol = (CryptoPrice_zero, False))
   \<and> (i < length (Prices b) \<and> Symbol (Prices b ! i) = symbol \<and>
       (\<forall>j<i. Symbol (Prices b ! j) \<noteq> symbol) \<longrightarrow>
      GetBySymbol b symbol = (Prices b ! i, True))
   \<and> (snd (GetBySymbol b symbol) \<longleftrightarrow> (\<exists>c\<in>set (Prices b). Symbol c = symbol))"
  by (simp add: GetBySymbol_def GetBySymbol_loop_none GetBySymbol_loop_first
      GetBySymbol_loop_found)

theorem GetBySymbol_first_match_witness:
  "GetBySymbol \<lparr>Prices = [
       \<lparr>ID = ''ethereum'', Symbol = ''eth'', Name = ''Ethereum'', CurrentPrice = Finite 3000,
        LastUpdated = []\<rparr>,
       \<lparr>ID = ''bitcoin'', Symbol = ''btc'', Name = ''Bitcoin'', CurrentPrice = Finite 50000,
        LastUpdated = []\<rparr>,
       \<lparr>ID = ''wrapped-bitcoin'', Symbol = ''btc'', Name = ''Wrapped'', CurrentPrice = Finite 49000,
        LastUpdated = []\<rparr>]\<rparr> ''btc''
     = (\<lparr>ID = ''bitcoin'', Symbol = ''btc'', Name = ''Bitcoin'', CurrentPrice = Finite 50000,
        LastUpdated = []\<rparr>, True)
   \<and> GetBySymbol \<lparr>Prices = [
       \<lparr>ID = ''ethereum'', Symbol = ''eth'', Name = ''Ethereum'', CurrentPrice = Finite 3000,
        LastUpdated = []\<rparr>,
       \<lparr>ID = ''bitcoin'', Symbol = ''btc'', Name = ''Bitcoin'', CurrentPrice = Finite 50000,
        LastUpdated = []\<rparr>,
       \<lparr>ID = ''wrapped-bitcoin'', Symbol = ''btc'', Name = ''Wrapped'', CurrentPrice = Finite 49000,
        LastUpdated = []\<rparr>]\<rparr> ''BTC''
     = (\<lparr>ID = [], Symbol = [], Name = [], CurrentPrice = Finite 0, LastUpdated = []\<rparr>, False)"
proof -
  let ?eth = "\<lparr>ID = ''ethereum'', Symbol = ''eth'', Name = ''Ethereum'',
      CurrentPrice = Finite 3000, LastUpdated = []\<rparr>"
  let ?btc = "\<lparr>ID = ''bitcoin'', Symbol = ''btc'', Name = ''Bitcoin'',
      CurrentPrice = Finite 50000, LastUpdated = []\<rparr>"
  let ?wbtc = "\<lparr>ID = ''wrapped-bitcoin'', Symbol = ''btc'', Name = ''Wrapped'',
      CurrentPrice = Finite 49000, LastUpdated = []\<rparr>"
  let ?b = "\<lparr>Prices = [?eth, ?btc, ?wbtc]\<rparr>"
  have h1: "1 < length (Prices ?b) \<and> Symbol (Prices ?b ! 1) = ''btc'' \<and>
      (\<forall>j<1. Symbol (Prices ?b ! j) \<noteq> ''btc'')"
    by simp
  from GetBySymbol_first_match[of ?b "''btc''" 1] h1
  have "GetBySymbol ?b ''btc'' = (Prices ?b ! 1, True)" by blast
  then have a: "GetBySymbol ?b ''btc'' = (?btc, True)" by simp
  have h2: "\<forall>c\<in>set (Prices ?b). Symbol c \<noteq> ''BTC''" by simp
  from GetBySymbol_first_match[of ?b "''BTC''"] h2
  have "GetBySymbol ?b ''BTC'' = (CryptoPrice_zero, False)" by blast
  then have b: "GetBySymbol ?b ''BTC''
      = (\<lparr>ID = [], Symbol = [], Name = [], CurrentPrice = Finite 0, LastUpdated = []\<rparr>, False)"
    by (simp add: CryptoPrice_zero_def f64_zero_def)
  from a b show ?thesis by blast
qed

section \<open>GetTopNCryptos\<close>

lemma to_prices_length: "length (to_prices w i ms) = length ms"
  by (induction ms arbitrary: i) simp_all

lemma to_prices_nth:
  "k < length ms \<Longrightarrow>
   to_prices w i ms ! k
     = \<lparr>ID = md_ID (ms ! k), Symbol = md_Symbol (ms ! k), Name = md_Name (ms ! k),
        CurrentPrice = md_Price (ms ! k), LastUpdated = format_rfc3339 (now w (i + k))\<rparr>"
proof (induction ms arbitrary: i k)
  case Nil
  then show ?case by simp
next
  case (Cons a ms)
  show ?case
  proof (cases k)
    case 0
    then show ?thesis by simp
  next
    case (Suc j)
    with Cons.prems have "j < length ms" by simp
    from Cons.IH[OF this, of "Suc i"] Suc show ?thesis by simp
  qed
qed

text \<open>
  Claim C5, as the specification states it, lets \<^verbatim>\<open>GetTopNCryptos\<close> fail on a transport
  failure, a non-2xx status or a decode failure, and return the records otherwise. The
  test of the code is \<^verbatim>\<open>resp.StatusCode != http.StatusOK\<close>: an answer with the 2xx
  status 203 and a body that decodes is none of the three failures, and the call returns an
  error all the same. That error wraps no other error.
\<close>

theorem GetTopNCryptos_2xx_counterexample:
  "http_get (test_server 203 markets_body) 0 (markets_url test_client 20)
     = Inr \<lparr>StatusCode = 203, Body = markets_body\<rparr>
   \<and> (200::int) \<le> 203 \<and> (203::int) \<le> 299
   \<and> decode_markets (test_server 203 markets_body) markets_body
     = Inr [\<lparr>md_ID = ''bitcoin'', md_Symbol = ''btc'', md_Name = ''Bitcoin'',
             md_Price = Finite 50000\<rparr>]
   \<and> GetTopNCryptos (test_server 203 markets_body) test_client 20
     = ([], Some (ErrorNew ''API returned status code: 203''))"
proof -
  have "string_of_int 203 = ''203''" by code_simp
  then show ?thesis
    by (simp add: GetTopNCryptos_def test_server_def test_decode_markets_def StatusOK_def)
qed

text \<open>
  Claim C5, amended: \<^verbatim>\<open>GetTopNCryptos\<close> fails with an error that wraps the transport
  error on a transport failure, with the new error \<^verbatim>\<open>API returned status code: N\<close>
  (which wraps nothing) on every status other than 200, and with an error that wraps the
  decoder's error on a decode failure. Otherwise, that is when the status is 200 and the
  body decodes, it returns no error and one CryptoPrice per decoded market record, in the
  order of the records, with id, symbol, name and price copied field for field and with
  LastUpdated the RFC 3339 text of the clock reading taken when the record is converted.
\<close>

theorem GetTopNCryptos_behaviour:
  "(http_get w 0 (markets_url c n) = Inl err \<longrightarrow>
      GetTopNCryptos w c n = ([], Some (WrapError ''failed to fetch top cryptos: '' err)))
   \<and> (http_get w 0 (markets_url c n) = Inr resp \<and> StatusCode resp \<noteq> 200 \<longrightarrow>
      GetTopNCryptos w c n
        = ([], Some (ErrorNew (''API returned status code: '' @ string_of_int (StatusCode resp)))))
   \<and> (http_get w 0 (markets_url c n) = Inr resp \<and> StatusCode resp = 200 \<and>
       decode_markets w (Body resp) = Inl err \<longrightarrow>
      GetTopNCryptos w c n = ([], Some (WrapError ''failed to decode response: '' err)))
   \<and> (http_get w 0 (markets_url c n) = Inr resp \<and> StatusCode resp = 200 \<and>
       decode_markets w (Body resp) = Inr marketData \<longrightarrow>
      snd (GetTopNCryptos w c n) = None \<and>
      length (fst (GetTopNCryptos w c n)) = length marketData \<and>
      (\<forall>i<length marketData.
         fst (GetTopNCryptos w c n) ! i
           = \<lparr>ID = md_ID (marketData ! i), Symbol = md_Symbol (marketData ! i),
              Name = md_Name (marketData ! i), CurrentPrice = md_Price (marketData ! i),
              LastUpdated = format_rfc3339 (now w i)\<rparr>))"
  by (simp add: GetTopNCryptos_def StatusOK_def to_prices_length to_prices_nth)

theorem GetTopNCryptos_behaviour_witness:
  "GetTopNCryptos (test_server 200 markets_body) test_client 20
     = ([\<lparr>ID = ''bitcoin'', Symbol = ''btc'', Name = ''Bitcoin'', CurrentPrice = Finite 50000,
          LastUpdated = ''2026-10-31T13:05:09Z''\<rparr>], None)
   \<and> GetTopNCryptos (test_server 500 []) test_client 20
     = ([], Some (ErrorNew ''API returned status code: 500''))
   \<and> GetTopNCryptos (test_server 200 ''<html>'') test_client 20
     = ([], Some (WrapError ''failed to decode response: '' (DecodeError ''invalid character'')))
   \<and> GetTopNCryptos down_server test_client 20
     = ([], Some (WrapError ''failed to fetch top cryptos: ''
          (TransportError ''connection refused'')))"
proof -
  let ?w = "test_server 200 markets_body"
  let ?md = "\<lparr>md_ID = ''bitcoin'', md_Symbol = ''btc'', md_Name = ''Bitcoin'',
             md_Price = Finite 50000\<rparr>"
  let ?p = "\<lparr>ID = ''bitcoin'', Symbol = ''btc'', Name = ''Bitcoin'', CurrentPrice = Finite 50000,
          LastUpdated = ''2026-10-31T13:05:09Z''\<rparr>"
  have f: "format_rfc3339 (now ?w 0) = ''2026-10-31T13:05:09Z''" by code_simp
  have h1: "http_get ?w 0 (markets_url test_client 20) = Inr \<lparr>StatusCode = 200, Body = markets_body\<rparr>
      \<and> StatusCode \<lparr>StatusCode = 200, Body = markets_body\<rparr> = 200
      \<and> decode_markets ?w (Body \<lparr>StatusCode = 200, Body = markets_body\<rparr>) = Inr [?md]"
    by (simp add: test_server_def test_decode_markets_def)
  from GetTopNCryptos_behaviour[of ?w test_client 20 _ "\<lparr>StatusCode = 200, Body = markets_body\<rparr>"
      "[?md]"] h1
  have g: "snd (GetTopNCryptos ?w test_client 20) = None \<and>
      length (fst (GetTopNCryptos ?w test_client 20)) = length [?md] \<and>
      (\<forall>i<length [?md]. fst (GetTopNCryptos ?w test_client 20) ! i
           = \<lparr>ID = md_ID ([?md] ! i), Symbol = md_Symbol ([?md] ! i),
              Name = md_Name ([?md] ! i), CurrentPrice = md_Price ([?md] ! i),
              LastUpdated = format_rfc3339 (now ?w i)\<rparr>)"
    by blast
  then have "fst (GetTopNCryptos ?w test_client 20) ! 0 = ?p" using f by simp
  moreover from g have "length (fst (GetTopNCryptos ?w test_client 20)) = 1" by simp
  ultimately have "fst (GetTopNCryptos ?w test_client 20) = [?p]"
    by (cases "fst (GetTopNCryptos ?w test_client 20)") auto
  with g have a: "GetTopNCryptos ?w test_client 20 = ([?p], None)"
    by (cases "GetTopNCryptos ?w test_client 20") simp
  have s500: "string_of_int 500 = ''500''" by code_simp
  have h2: "http_get (test_server 500 []) 0 (markets_url test_client 20)
        = Inr \<lparr>StatusCode = 500, Body = []\<rparr>
      \<and> StatusCode \<lparr>StatusCode = 500, Body = []\<rparr> \<noteq> 200"
    by (simp add: test_server_def)
  from GetTopNCryptos_behaviour[of "test_server 500 []" test_client 20 _
      "\<lparr>StatusCode = 500, Body = []\<rparr>"] h2
  have "GetTopNCryptos (test_server 500 []) test_client 20
     = ([], Some (ErrorNew (''API returned status code: '' @
          string_of_int (StatusCode \<lparr>StatusCode = 500, Body = []\<rparr>))))"
    by blast
  then have b: "GetTopNCryptos (test_server 500 []) test_client 20
     = ([], Some (ErrorNew ''API returned status code: 500''))"
    using s500 by simp
  have h3: "http_get (test_server 200 ''<html>'') 0 (markets_url test_client 20)
        = Inr \<lparr>StatusCode = 200, Body = ''<html>''\<rparr>
      \<and> StatusCode \<lparr>StatusCode = 200, Body = ''<html>''\<rparr> = 200
      \<and> decode_markets (test_server 200 ''<html>'') (Body \<lparr>StatusCode = 200, Body = ''<html>''\<rparr>)
        = Inl (DecodeError ''invalid character'')"
    by (simp add: test_server_def test_decode_markets_def markets_body_def)
  from GetTopNCryptos_behaviour[of "test_server 200 ''<html>''" test_client 20
      "DecodeError ''invalid character''" "\<lparr>StatusCode = 200, Body = ''<html>''\<rparr>"] h3
  have c: "GetTopNCryptos (test_server 200 ''<html>'') test_client 20
     = ([], Some (WrapError ''failed to decode response: '' (DecodeError ''invalid character'')))"
    by blast
  have h4: "http_get down_server 0 (markets_url test_client 20)
      = Inl (TransportError ''connection refused'')"
    by (simp add: down_server_def)
  from GetTopNCryptos_behaviour[of down_server test_client 20
      "TransportError ''connection refused''"] h4
  have d: "GetTopNCryptos down_server test_client 20
     = ([], Some (WrapError ''failed to fetch top cryptos: ''
          (TransportError ''connection refused'')))"
    by blast
  from a b c d show ?thesis by blast
qed

end
